theory Spec2Isabelle
  imports Complex_Main
begin

section \<open>Order interpreter: text primitives, segmenter, normalizer and matcher\<close>

text \<open>
  The development follows the Python sources \<^verbatim>\<open>app/utils/text.py\<close>,
  \<^verbatim>\<open>app/services/interpreter/parser.py\<close>, \<^verbatim>\<open>resolver.py\<close>, \<^verbatim>\<open>matcher.py\<close> and the
  pydantic schemas of \<^verbatim>\<open>app/core/schemas.py\<close>.

  Conventions of the embedding.
  \<^item> A Python \<^verbatim>\<open>str\<close> is a \<open>string\<close>; a \<open>char\<close> stands for the code point of the same
    number, so the texts covered are those over U+0000..U+00FF (ASCII and the accented
    Latin-1 letters of Portuguese). Character predicates (\<^verbatim>\<open>\s\<close>, \<^verbatim>\<open>\w\<close>, \<^verbatim>\<open>\d\<close>,
    \<^verbatim>\<open>str.lower\<close>) are Python's, restricted to that range.
  \<^item> Third-party library functions are parameters: \<open>ud\<close> is the per-character
    transliteration table of \<^verbatim>\<open>unidecode\<close>, \<open>sc\<close> is the scorer \<^verbatim>\<open>rapidfuzz.fuzz.WRatio\<close>
    (a score between 0 and 100).
  \<^item> A Python \<^verbatim>\<open>int\<close> is an \<open>int\<close>. A \<^verbatim>\<open>float\<close> and a \<^verbatim>\<open>Decimal\<close> are the rational numbers
    they denote, and their operations round (\<open>round64\<close>, \<open>dec_round\<close>).
  \<^item> A pydantic \<^verbatim>\<open>ValidationError\<close> is the value \<open>Inl ValidationError\<close>.
\<close>

subsection \<open>Python string operations\<close>

definition is_space :: "char \<Rightarrow> bool" where
  "is_space c =
     (let n = (of_char c :: int)
      in (9 \<le> n \<and> n \<le> 13) \<or> (28 \<le> n \<and> n \<le> 32) \<or> n = 133 \<or> n = 160)"

definition is_digit :: "char \<Rightarrow> bool" where
  "is_digit c = (let n = (of_char c :: int) in 48 \<le> n \<and> n \<le> 57)"

definition is_ascii_lower :: "char \<Rightarrow> bool" where
  "is_ascii_lower c = (let n = (of_char c :: int) in 97 \<le> n \<and> n \<le> 122)"

definition is_ascii_upper :: "char \<Rightarrow> bool" where
  "is_ascii_upper c = (let n = (of_char c :: int) in 65 \<le> n \<and> n \<le> 90)"

text \<open>\<^verbatim>\<open>\w\<close>: alphanumeric (\<^verbatim>\<open>str.isalnum\<close>) or underscore.\<close>

definition is_word :: "char \<Rightarrow> bool" where
  "is_word c =
     (let n = (of_char c :: int)
      in is_digit c \<or> is_ascii_lower c \<or> is_ascii_upper c \<or> n = 95
         \<or> n = 170 \<or> n = 178 \<or> n = 179 \<or> n = 181 \<or> n = 185 \<or> n = 186
         \<or> (188 \<le> n \<and> n \<le> 190)
         \<or> (192 \<le> n \<and> n \<le> 214) \<or> (216 \<le> n \<and> n \<le> 246) \<or> 248 \<le> n)"

definition lower_char :: "char \<Rightarrow> char" where
  "lower_char c =
     (let n = (of_char c :: int)
      in if (65 \<le> n \<and> n \<le> 90) \<or> (192 \<le> n \<and> n \<le> 222 \<and> n \<noteq> 215)
         then char_of (n + 32) else c)"

definition upper_char :: "char \<Rightarrow> char" where
  "upper_char c =
     (let n = (of_char c :: int)
      in if (97 \<le> n \<and> n \<le> 122) \<or> (224 \<le> n \<and> n \<le> 254 \<and> n \<noteq> 247)
         then char_of (n - 32) else c)"

definition py_lower :: "string \<Rightarrow> string" where
  "py_lower s = map lower_char s"

definition strip_with :: "(char \<Rightarrow> bool) \<Rightarrow> string \<Rightarrow> string" where
  "strip_with P s = rev (dropWhile P (rev (dropWhile P s)))"

text \<open>\<^verbatim>\<open>s.strip()\<close> and \<^verbatim>\<open>s.strip(chars)\<close>.\<close>

definition py_strip :: "string \<Rightarrow> string" where
  "py_strip s = strip_with is_space s"

definition py_strip_chars :: "string \<Rightarrow> string \<Rightarrow> string" where
  "py_strip_chars chars s = strip_with (\<lambda>c. c \<in> set chars) s"

text \<open>\<^verbatim>\<open>s.split()\<close>: the maximal runs of non-whitespace characters.\<close>

function py_split :: "string \<Rightarrow> string list" where
  "py_split [] = []"
| "py_split (c # cs) =
     (if is_space c then py_split cs
      else (c # takeWhile (\<lambda>x. \<not> is_space x) cs)
             # py_split (dropWhile (\<lambda>x. \<not> is_space x) cs))"
  by pat_completeness auto
termination
  by (relation "measure length") (auto simp: less_Suc_eq_le length_dropWhile_le)

fun py_join :: "string \<Rightarrow> string list \<Rightarrow> string" where
  "py_join sep [] = []"
| "py_join sep [x] = x"
| "py_join sep (x # y # ys) = x @ sep @ py_join sep (y # ys)"

fun starts_with :: "string \<Rightarrow> string \<Rightarrow> bool" where
  "starts_with [] s = True"
| "starts_with (p # ps) [] = False"
| "starts_with (p # ps) (c # cs) = (p = c \<and> starts_with ps cs)"

text \<open>\<^verbatim>\<open>sub in s\<close>.\<close>

fun py_in :: "string \<Rightarrow> string \<Rightarrow> bool" where
  "py_in sub [] = (sub = [])"
| "py_in sub (c # cs) = (starts_with sub (c # cs) \<or> py_in sub cs)"

text \<open>\<^verbatim>\<open>s.replace(old, new)\<close> for a non-empty \<open>old\<close> (the only use in the sources).\<close>

function py_replace :: "string \<Rightarrow> string \<Rightarrow> string \<Rightarrow> string" where
  "py_replace old new [] = []"
| "py_replace old new (c # cs) =
     (if old \<noteq> [] \<and> starts_with old (c # cs)
      then new @ py_replace old new (drop (length old - 1) cs)
      else c # py_replace old new cs)"
  by pat_completeness auto
termination
  by (relation "measure (\<lambda>(old, new, s). length s)") auto

text \<open>
  \<^verbatim>\<open>s.splitlines()\<close>: the line breaks are \<^verbatim>\<open>\n\<close>, \<^verbatim>\<open>\r\<close>, \<^verbatim>\<open>\r\n\<close>, \<^verbatim>\<open>\v\<close>, \<^verbatim>\<open>\f\<close>,
  \<^verbatim>\<open>\x1c\<close>, \<^verbatim>\<open>\x1d\<close>, \<^verbatim>\<open>\x1e\<close> and \<^verbatim>\<open>\x85\<close>; \<open>cur\<close> is the line read so far, reversed.
\<close>

definition is_linebreak :: "char \<Rightarrow> bool" where
  "is_linebreak c =
     (c \<in> set [CHR 0x0A, CHR 0x0D, CHR 0x0B, CHR 0x0C, CHR 0x1C, CHR 0x1D, CHR 0x1E, CHR 0x85])"

fun splitlines_from :: "string \<Rightarrow> string \<Rightarrow> string list" where
  "splitlines_from cur [] = (if cur = [] then [] else [rev cur])"
| "splitlines_from cur [c] = (if is_linebreak c then [rev cur] else [rev (c # cur)])"
| "splitlines_from cur (c # d # cs) =
     (if c = CHR 0x0D \<and> d = CHR 0x0A then rev cur # splitlines_from [] cs
      else if is_linebreak c then rev cur # splitlines_from [] (d # cs)
      else splitlines_from (c # cur) (d # cs))"

definition py_splitlines :: "string \<Rightarrow> string list" where
  "py_splitlines s = splitlines_from [] s"

text \<open>\<^verbatim>\<open>int(s)\<close> for a run of decimal digits.\<close>

definition digit_value :: "char \<Rightarrow> int" where
  "digit_value c = of_char c - 48"

definition py_int :: "string \<Rightarrow> int" where
  "py_int s = foldl (\<lambda>n c. 10 * n + digit_value c) 0 s"

subsection \<open>Python numbers: \<^verbatim>\<open>float\<close> and \<^verbatim>\<open>Decimal\<close>\<close>

text \<open>
  A finite \<^verbatim>\<open>float\<close> (IEEE 754 binary64) and a finite \<^verbatim>\<open>Decimal\<close> are both read as the
  rational number they denote. An arithmetic operation computes the exact result and
  rounds it: a \<^verbatim>\<open>float\<close> operation to the nearest binary64 value, a \<^verbatim>\<open>Decimal\<close>
  operation to the 28 significant digits of the default context, both with ties going to
  the even neighbour (\<^verbatim>\<open>ROUND_HALF_EVEN\<close>).

  \<open>round_half_even x\<close> is the integer nearest to \<open>x\<close>, the even one of the two when \<open>x\<close>
  lies halfway.
\<close>

definition round_half_even :: "rat \<Rightarrow> int" where
  "round_half_even x =
     (let f = \<lfloor>x\<rfloor>; d = x - of_int f
      in if d < 1 / 2 then f else if 1 / 2 < d then f + 1 else if even f then f else f + 1)"

text \<open>
  \<open>ilog b x\<close> is the exponent \<open>e\<close> with \<open>b ^ e \<le> x < b ^ (e + 1)\<close> for \<open>0 < x\<close> and \<open>2 \<le> b\<close>
  (lemma \<open>ilog_spec\<close>): \<open>log_up\<close> counts the divisions by \<open>b\<close> that bring \<open>x \<ge> 1\<close> below \<open>b\<close>,
  \<open>log_down\<close> the multiplications by \<open>b\<close> that bring \<open>x < 1\<close> up to \<open>1\<close>.
\<close>

function log_up :: "nat \<Rightarrow> rat \<Rightarrow> nat" where
  "log_up b x = (if 2 \<le> b \<and> of_nat b \<le> x then Suc (log_up b (x / of_nat b)) else 0)"
  by pat_completeness auto

function log_down :: "nat \<Rightarrow> rat \<Rightarrow> nat" where
  "log_down b x = (if 2 \<le> b \<and> 0 < x \<and> x < 1 then Suc (log_down b (x * of_nat b)) else 0)"
  by pat_completeness auto

lemma floor_half_less:
  fixes y :: rat
  assumes "1 \<le> y" "2 \<le> (b::nat)"
  shows "\<lfloor>y / of_nat b\<rfloor> < \<lfloor>y\<rfloor>"
proof -
  have b: "(2::rat) \<le> of_nat b" using assms(2) by (metis of_nat_le_iff of_nat_numeral)
  have "y / of_nat b \<le> y / 2" using b assms(1) by (intro divide_left_mono) auto
  moreover have "\<lfloor>y / 2\<rfloor> < \<lfloor>y\<rfloor>"
  proof (cases "y < 2")
    case True
    then have "\<lfloor>y / 2\<rfloor> = 0" using assms(1) by (intro floor_unique) auto
    moreover have "1 \<le> \<lfloor>y\<rfloor>" using assms(1) by (simp add: le_floor_iff)
    ultimately show ?thesis by simp
  next
    case False
    then have "y / 2 \<le> y - 1" by (simp add: field_simps)
    then have "\<lfloor>y / 2\<rfloor> \<le> \<lfloor>y - 1\<rfloor>" by (rule floor_mono)
    then show ?thesis by simp
  qed
  ultimately show ?thesis by (meson floor_mono le_less_trans)
qed

termination log_up
proof (relation "measure (\<lambda>(b, x). nat \<lfloor>x\<rfloor>)", goal_cases)
  case 1
  show ?case by simp
next
  case (2 b x)
  then have "1 \<le> x" "2 \<le> b"
    by (auto intro: order_trans[of 1 "of_nat b" x])
  from floor_half_less[OF this] 2 this show ?case
    by (simp add: le_floor_iff)
qed

termination log_down
proof (relation "measure (\<lambda>(b, x). nat \<lfloor>1 / x\<rfloor>)", goal_cases)
  case 1
  show ?case by simp
next
  case (2 b x)
  then have x: "0 < x" "x < 1" and b: "2 \<le> b" by auto
  then have "1 \<le> 1 / x" by (simp add: field_simps)
  from floor_half_less[OF this b] have "\<lfloor>1 / (x * of_nat b)\<rfloor> < \<lfloor>1 / x\<rfloor>"
    by (simp add: field_simps)
  moreover have "1 \<le> \<lfloor>1 / x\<rfloor>" using \<open>1 \<le> 1 / x\<close> by (simp add: le_floor_iff)
  ultimately show ?case by simp
qed

declare log_up.simps [simp del] log_down.simps [simp del]

definition ilog :: "nat \<Rightarrow> rat \<Rightarrow> int" where
  "ilog b x = (if 1 \<le> x then int (log_up b x) else - int (log_down b x))"

text \<open>
  \<open>round64 x\<close>: the binary64 value nearest to \<open>x\<close>. With \<open>2 ^ e \<le> \<bar>x\<bar> < 2 ^ (e + 1)\<close> the
  binary64 values around \<open>x\<close> are the multiples of \<open>2 ^ (e - 52)\<close> (53 significant bits);
  below \<open>2 ^ - 1022\<close> the spacing stays \<open>2 ^ - 1074\<close> (subnormal values), so the exponent
  \<open>expo64 x\<close> is never below \<open>- 1022\<close>. It is the result
  of reading a decimal literal (\<open>round64 (1 / 10)\<close> is the value of \<^verbatim>\<open>0.1\<close>), of converting an
  \<^verbatim>\<open>int\<close>, and of every arithmetic operation: \<^verbatim>\<open>a * b\<close> is \<open>round64 (a * b)\<close>. The overflow
  to infinity at \<open>2 ^ 1024\<close> is not modelled: the values of the sources are scores between
  0 and 100, thresholds, and the length of a list (below \<open>2 ^ 63\<close>).

  \<open>dec_round x\<close>: \<open>x\<close> rounded to 28 significant decimal digits, the result of a \<^verbatim>\<open>Decimal\<close>
  operation whose exact result is \<open>x\<close>. The exponent limits of the context
  (\<open>10 ^ 999999\<close> and its inverse) are not modelled.
\<close>

definition expo64 :: "rat \<Rightarrow> int" where
  "expo64 x = max (ilog 2 \<bar>x\<bar>) (- 1022)"

definition round64 :: "rat \<Rightarrow> rat" where
  "round64 x =
     (if x = 0 then 0
      else let q = power_int 2 (expo64 x - 52)
           in of_int (round_half_even (x / q)) * q)"

definition dec_round :: "rat \<Rightarrow> rat" where
  "dec_round x =
     (if x = 0 then 0
      else let e = ilog 10 \<bar>x\<bar>; q = power_int 10 (e - 27)
           in of_int (round_half_even (x / q)) * q)"

subsection \<open>\<^verbatim>\<open>app/utils/text.py\<close>\<close>

type_synonym unidecode_table = "char \<Rightarrow> string"

definition unidecode :: "unidecode_table \<Rightarrow> string \<Rightarrow> string" where
  "unidecode ud s = concat (map ud s)"

definition make_fingerprint :: "unidecode_table \<Rightarrow> string \<Rightarrow> string" where
  "make_fingerprint ud text =
     (if text = [] then []
      else filter (\<lambda>c. is_ascii_lower c \<or> is_digit c) (py_lower (unidecode ud text)))"

definition normalize_text :: "unidecode_table \<Rightarrow> string \<Rightarrow> string" where
  "normalize_text ud text =
     (if text = [] then []
      else py_strip_chars (''.,!?;:'' @ [CHR 0x22, CHR 0x27])
             (py_join '' '' (py_split (py_lower (unidecode ud text)))))"

text \<open>
  \<^verbatim>\<open>rapidfuzz.process.process_extractOne(query, choices, scorer=sc)\<close> with no cutoff: the choice
  with the highest score as \<open>(choice, score, index)\<close>, the first one on ties, \<open>None\<close> for
  no choice. \<^verbatim>\<open>process.extract(..., limit=n)\<close>: the \<open>n\<close> best, by descending score, ties in
  input order.
\<close>

type_synonym scorer = "string \<Rightarrow> string \<Rightarrow> rat"

fun process_extractOne_loop ::
  "scorer \<Rightarrow> string \<Rightarrow> nat \<Rightarrow> (string \<times> rat \<times> nat) option \<Rightarrow> string list
   \<Rightarrow> (string \<times> rat \<times> nat) option" where
  "process_extractOne_loop sc q i best [] = best"
| "process_extractOne_loop sc q i best (c # cs) =
     (let score = sc q c
      in process_extractOne_loop sc q (Suc i)
           (case best of
              None \<Rightarrow> Some (c, score, i)
            | Some (bc, bs, bi) \<Rightarrow> if bs < score then Some (c, score, i) else best)
           cs)"

definition process_extractOne :: "scorer \<Rightarrow> string \<Rightarrow> string list \<Rightarrow> (string \<times> rat \<times> nat) option" where
  "process_extractOne sc q choices = process_extractOne_loop sc q 0 None choices"

definition process_extract :: "scorer \<Rightarrow> string \<Rightarrow> string list \<Rightarrow> nat \<Rightarrow> (string \<times> rat \<times> nat) list" where
  "process_extract sc q choices limit =
     take limit
       (sort_key (\<lambda>(c, score, i). - score)
          (map (\<lambda>(i, c). (c, sc q c, i)) (enumerate 0 choices)))"

definition find_best_match ::
  "scorer \<Rightarrow> unidecode_table \<Rightarrow> string \<Rightarrow> string list \<Rightarrow> rat \<Rightarrow> string option \<times> rat" where
  "find_best_match sc ud query candidates threshold =
     (if candidates = [] then (None, 0)
      else
        let query_normalized = normalize_text ud query;
            candidates_normalized = map (normalize_text ud) candidates
        in case process_extractOne sc query_normalized candidates_normalized of
             None \<Rightarrow> (None, 0)
           | Some (m, score0, index) \<Rightarrow>
               let score = round64 (score0 / 100)
               in if score < threshold then (None, score)
                  else (Some (candidates ! index), score))"

definition find_matches ::
  "scorer \<Rightarrow> unidecode_table \<Rightarrow> string \<Rightarrow> string list \<Rightarrow> rat \<Rightarrow> nat \<Rightarrow> (string \<times> rat) list" where
  "find_matches sc ud query candidates threshold limit =
     (if candidates = [] then []
      else
        let query_normalized = normalize_text ud query;
            candidates_normalized = map (normalize_text ud) candidates;
            results = process_extract sc query_normalized candidates_normalized limit
        in map (\<lambda>(m, score, index). (candidates ! index, round64 (score / 100)))
             (filter (\<lambda>(m, score, index). threshold \<le> round64 (score / 100)) results))"

text \<open>
  \<^verbatim>\<open>extract_numbers\<close> (\<^verbatim>\<open>re.findall(r"\d+", text)\<close>, as integers) and \<^verbatim>\<open>parse_quantity\<close>.
  Of the texts that \<^verbatim>\<open>float\<close> accepts, the model covers a run of digits with an optional
  fraction; any other text takes the \<^verbatim>\<open>ValueError\<close> branch.
\<close>

function extract_numbers :: "string \<Rightarrow> int list" where
  "extract_numbers [] = []"
| "extract_numbers (c # cs) =
     (if is_digit c
      then py_int (c # takeWhile is_digit cs) # extract_numbers (dropWhile is_digit cs)
      else extract_numbers cs)"
  by pat_completeness auto
termination
  by (relation "measure length") (auto simp: less_Suc_eq_le length_dropWhile_le)

definition word_map :: "(string \<times> int) list" where
  "word_map =
     [(''um'', 1), (''uma'', 1), (''dois'', 2), (''duas'', 2), (''tres'', 3), (''quatro'', 4),
      (''cinco'', 5), (''seis'', 6), (''meia duzia'', 6), (''sete'', 7), (''oito'', 8),
      (''nove'', 9), (''dez'', 10), (''onze'', 11), (''doze'', 12), (''uma duzia'', 12)]"

definition int_of_float_text :: "string \<Rightarrow> int option" where
  "int_of_float_text text =
     (let whole = takeWhile is_digit text; frac = dropWhile is_digit text
      in if whole \<noteq> [] \<and> (frac = [] \<or> (hd frac = CHR ''.'' \<and> list_all is_digit (tl frac)))
         then Some (py_int whole) else None)"

definition parse_quantity :: "unidecode_table \<Rightarrow> string \<Rightarrow> int" where
  "parse_quantity ud text0 =
     (let text = normalize_text ud text0
      in case map_of word_map text of
           Some n \<Rightarrow> n
         | None \<Rightarrow>
             (case int_of_float_text text of
                Some n \<Rightarrow> n
              | None \<Rightarrow> (case extract_numbers text of n # _ \<Rightarrow> n | [] \<Rightarrow> 1)))"

subsection \<open>The fragment of Python's \<^verbatim>\<open>re\<close> that the sources use\<close>

text \<open>
  Patterns are data. The matcher is the backtracking search of \<^verbatim>\<open>re\<close>: \<open>ms ic r s\<close> lists,
  in the order in which the search tries them, the states in which a match of \<open>r\<close>
  started in state \<open>s\<close> can end; the match that \<^verbatim>\<open>re\<close> reports is the first one. A state is
  the position, the character before it (for \<^verbatim>\<open>\b\<close>), the text that is left, and the
  spans of the groups closed so far (the latest first). \<open>ic\<close> is the flag
  \<^verbatim>\<open>re.IGNORECASE\<close>.
\<close>

datatype cclass =
    Spc                    \<comment> \<open>\<^verbatim>\<open>\s\<close>\<close>
  | Dig                    \<comment> \<open>\<^verbatim>\<open>\d\<close>\<close>
  | Dot                    \<comment> \<open>\<^verbatim>\<open>.\<close>: any character but a newline\<close>
  | In string              \<comment> \<open>\<^verbatim>\<open>[abc]\<close>\<close>
  | NotIn string           \<comment> \<open>\<^verbatim>\<open>[^abc]\<close>\<close>
  | Rng char char          \<comment> \<open>\<^verbatim>\<open>[a-z]\<close>\<close>

datatype regex =
    Empty
  | Lit char
  | Cls cclass
  | Seq regex regex
  | Alt regex regex        \<comment> \<open>\<^verbatim>\<open>a|b\<close>, \<open>a\<close> tried first\<close>
  | Star regex             \<comment> \<open>\<^verbatim>\<open>a*\<close>, greedy\<close>
  | LazyStar regex         \<comment> \<open>\<^verbatim>\<open>a*?\<close>\<close>
  | Grp nat regex          \<comment> \<open>capturing group number \<open>n\<close>\<close>
  | Look regex             \<comment> \<open>\<^verbatim>\<open>(?=a)\<close>\<close>
  | Bol                    \<comment> \<open>\<^verbatim>\<open>^\<close>\<close>
  | Eol                    \<comment> \<open>\<^verbatim>\<open>$\<close>: the end, or before a final newline\<close>
  | WordB                  \<comment> \<open>\<^verbatim>\<open>\b\<close>\<close>

definition eqc :: "bool \<Rightarrow> char \<Rightarrow> char \<Rightarrow> bool" where
  "eqc ic p c = (p = c \<or> ic \<and> lower_char p = lower_char c)"

definition in_range :: "char \<Rightarrow> char \<Rightarrow> char \<Rightarrow> bool" where
  "in_range a b c = ((of_char a :: int) \<le> of_char c \<and> (of_char c :: int) \<le> of_char b)"

fun cls_mem :: "bool \<Rightarrow> cclass \<Rightarrow> char \<Rightarrow> bool" where
  "cls_mem ic Spc c = is_space c"
| "cls_mem ic Dig c = is_digit c"
| "cls_mem ic Dot c = (c \<noteq> CHR 0x0A)"
| "cls_mem ic (In cs) c =
     (c \<in> set cs \<or> ic \<and> (lower_char c \<in> set cs \<or> upper_char c \<in> set cs))"
| "cls_mem ic (NotIn cs) c =
     (\<not> (c \<in> set cs \<or> ic \<and> (lower_char c \<in> set cs \<or> upper_char c \<in> set cs)))"
| "cls_mem ic (Rng a b) c =
     (in_range a b c \<or> ic \<and> (in_range a b (lower_char c) \<or> in_range a b (upper_char c)))"

definition word_boundary :: "char option \<Rightarrow> string \<Rightarrow> bool" where
  "word_boundary pv xs =
     ((case pv of None \<Rightarrow> False | Some c \<Rightarrow> is_word c)
      \<noteq> (case xs of [] \<Rightarrow> False | x # _ \<Rightarrow> is_word x))"

type_synonym caps = "(nat \<times> nat \<times> nat) list"
type_synonym mstate = "nat \<times> char option \<times> string \<times> caps"

definition shorter :: "mstate \<Rightarrow> mstate \<Rightarrow> bool" where
  "shorter s' s = (length (fst (snd (snd s'))) < length (fst (snd (snd s))))"

function (sequential) ms :: "bool \<Rightarrow> regex \<Rightarrow> mstate \<Rightarrow> mstate list" where
  "ms ic Empty s = [s]"
| "ms ic (Lit c) (p, pv, [], cs) = []"
| "ms ic (Lit c) (p, pv, x # xs, cs) = (if eqc ic c x then [(Suc p, Some x, xs, cs)] else [])"
| "ms ic (Cls k) (p, pv, [], cs) = []"
| "ms ic (Cls k) (p, pv, x # xs, cs) =
     (if cls_mem ic k x then [(Suc p, Some x, xs, cs)] else [])"
| "ms ic (Seq a b) s = concat (map (ms ic b) (ms ic a s))"
| "ms ic (Alt a b) s = ms ic a s @ ms ic b s"
| "ms ic (Star a) s =
     concat (map (\<lambda>s'. if shorter s' s then ms ic (Star a) s' else []) (ms ic a s)) @ [s]"
| "ms ic (LazyStar a) s =
     s # concat (map (\<lambda>s'. if shorter s' s then ms ic (LazyStar a) s' else []) (ms ic a s))"
| "ms ic (Grp n a) (p, pv, xs, cs) =
     map (\<lambda>(p', pv', xs', cs'). (p', pv', xs', (n, p, p') # cs')) (ms ic a (p, pv, xs, cs))"
| "ms ic (Look a) (p, pv, xs, cs) =
     (case ms ic a (p, pv, xs, cs) of
        [] \<Rightarrow> []
      | (p', pv', xs', cs') # _ \<Rightarrow> [(p, pv, xs, cs')])"
| "ms ic Bol (p, pv, xs, cs) = (if p = 0 then [(p, pv, xs, cs)] else [])"
| "ms ic Eol (p, pv, xs, cs) = (if xs = [] \<or> xs = [CHR 0x0A] then [(p, pv, xs, cs)] else [])"
| "ms ic WordB (p, pv, xs, cs) = (if word_boundary pv xs then [(p, pv, xs, cs)] else [])"
  by pat_completeness auto
termination
  by (relation "inv_image (measure size <*lex*> measure length)
                  (\<lambda>(ic, r, s). (r, fst (snd (snd s))))")
    (auto simp: shorter_def)

text \<open>A match object: where the match starts and ends, and the spans of its groups.\<close>

type_synonym rmatch = "nat \<times> nat \<times> caps"

definition m_start :: "rmatch \<Rightarrow> nat" where
  "m_start m = fst m"

definition m_end :: "rmatch \<Rightarrow> nat" where
  "m_end m = fst (snd m)"

definition substr :: "string \<Rightarrow> nat \<Rightarrow> nat \<Rightarrow> string" where
  "substr text s e = take (e - s) (drop s text)"

text \<open>\<^verbatim>\<open>m.start(k)\<close> and \<^verbatim>\<open>m.group(k)\<close> for a group that took part in the match.\<close>

definition group_start :: "rmatch \<Rightarrow> nat \<Rightarrow> nat" where
  "group_start m k = (case map_of (snd (snd m)) k of None \<Rightarrow> 0 | Some (s, e) \<Rightarrow> s)"

definition group :: "string \<Rightarrow> rmatch \<Rightarrow> nat \<Rightarrow> string" where
  "group text m k = (case map_of (snd (snd m)) k of None \<Rightarrow> [] | Some (s, e) \<Rightarrow> substr text s e)"

definition match_at :: "bool \<Rightarrow> regex \<Rightarrow> nat \<Rightarrow> char option \<Rightarrow> string \<Rightarrow> rmatch option" where
  "match_at ic r p pv xs =
     (case ms ic r (p, pv, xs, []) of
        [] \<Rightarrow> None
      | (p', pv', xs', cs') # _ \<Rightarrow> Some (p, p', cs'))"

text \<open>\<^verbatim>\<open>pattern.match(text)\<close> and \<^verbatim>\<open>pattern.search(text)\<close>.\<close>

definition re_match :: "bool \<Rightarrow> regex \<Rightarrow> string \<Rightarrow> rmatch option" where
  "re_match ic r text = match_at ic r 0 None text"

fun search_from :: "bool \<Rightarrow> regex \<Rightarrow> nat \<Rightarrow> char option \<Rightarrow> string \<Rightarrow> rmatch option" where
  "search_from ic r p pv [] = match_at ic r p pv []"
| "search_from ic r p pv (x # xs) =
     (case match_at ic r p pv (x # xs) of
        Some m \<Rightarrow> Some m
      | None \<Rightarrow> search_from ic r (Suc p) (Some x) xs)"

definition re_search :: "bool \<Rightarrow> regex \<Rightarrow> string \<Rightarrow> rmatch option" where
  "re_search ic r text = search_from ic r 0 None text"

text \<open>
  \<^verbatim>\<open>pattern.finditer(text)\<close>: the matches from left to right, each search starting where
  the match before it ended; \<open>skip\<close> counts the characters still inside that match. No
  pattern of the sources matches the empty string; after an empty match the scan moves
  one character on.
\<close>

fun finditer_from ::
  "bool \<Rightarrow> regex \<Rightarrow> nat \<Rightarrow> nat \<Rightarrow> char option \<Rightarrow> string \<Rightarrow> rmatch list" where
  "finditer_from ic r skip p pv [] =
     (if skip = 0 then (case match_at ic r p pv [] of None \<Rightarrow> [] | Some m \<Rightarrow> [m]) else [])"
| "finditer_from ic r skip p pv (x # xs) =
     (if 0 < skip then finditer_from ic r (skip - 1) (Suc p) (Some x) xs
      else case match_at ic r p pv (x # xs) of
             None \<Rightarrow> finditer_from ic r 0 (Suc p) (Some x) xs
           | Some m \<Rightarrow> m # finditer_from ic r (m_end m - m_start m - 1) (Suc p) (Some x) xs)"

definition re_finditer :: "bool \<Rightarrow> regex \<Rightarrow> string \<Rightarrow> rmatch list" where
  "re_finditer ic r text = finditer_from ic r 0 0 None text"

text \<open>\<^verbatim>\<open>re.sub(pattern, repl, text)\<close>; a replacement is literal text and group references.\<close>

datatype rpart = RText string | RGroup nat

fun expand :: "rpart list \<Rightarrow> string \<Rightarrow> rmatch \<Rightarrow> string" where
  "expand [] text m = []"
| "expand (RText t # ps) text m = t @ expand ps text m"
| "expand (RGroup k # ps) text m = group text m k @ expand ps text m"

fun sub_between :: "rpart list \<Rightarrow> string \<Rightarrow> nat \<Rightarrow> rmatch list \<Rightarrow> string" where
  "sub_between repl text from [] = drop from text"
| "sub_between repl text from (m # rest) =
     substr text from (m_start m) @ expand repl text m @ sub_between repl text (m_end m) rest"

definition re_sub :: "bool \<Rightarrow> regex \<Rightarrow> rpart list \<Rightarrow> string \<Rightarrow> string" where
  "re_sub ic r repl text = sub_between repl text 0 (re_finditer ic r text)"

text \<open>\<^verbatim>\<open>re.split(pattern, text, maxsplit)\<close> for a pattern without groups; \<open>maxsplit = 0\<close>
  splits at every match.\<close>

fun split_between :: "string \<Rightarrow> nat \<Rightarrow> rmatch list \<Rightarrow> string list" where
  "split_between text from [] = [drop from text]"
| "split_between text from (m # rest) =
     substr text from (m_start m) # split_between text (m_end m) rest"

definition re_split :: "bool \<Rightarrow> regex \<Rightarrow> string \<Rightarrow> nat \<Rightarrow> string list" where
  "re_split ic r text maxsplit =
     split_between text 0
       (if maxsplit = 0 then re_finditer ic r text else take maxsplit (re_finditer ic r text))"

text \<open>Pattern syntax: a literal string, alternatives, a sequence, \<^verbatim>\<open>a+\<close>, \<^verbatim>\<open>a+?\<close>, \<^verbatim>\<open>a?\<close>.\<close>

definition lit :: "string \<Rightarrow> regex" where
  "lit s = foldr (\<lambda>c r. Seq (Lit c) r) s Empty"

fun alts :: "regex list \<Rightarrow> regex" where
  "alts [] = Cls (In [])"
| "alts [r] = r"
| "alts (r # rs) = Alt r (alts rs)"

definition seqs :: "regex list \<Rightarrow> regex" where
  "seqs rs = foldr Seq rs Empty"

definition plus :: "regex \<Rightarrow> regex" where
  "plus r = Seq r (Star r)"

definition lazy_plus :: "regex \<Rightarrow> regex" where
  "lazy_plus r = Seq r (LazyStar r)"

definition opt :: "regex \<Rightarrow> regex" where
  "opt r = Alt r Empty"

definition sp0 :: regex where
  "sp0 = Star (Cls Spc)"

definition sp1 :: regex where
  "sp1 = plus (Cls Spc)"

definition dg :: regex where
  "dg = Cls Dig"

subsection \<open>\<^verbatim>\<open>app/services/interpreter/parser.py\<close>\<close>

record ParsedItem =
  raw :: string
  quantity :: int
  name :: string
  additions :: "string list"
  removals :: "string list"
  item_notes :: "string list"
  is_additional_only :: bool
  size_hint :: "string option"
  match_text :: string

text \<open>The compiled patterns of the module, all with \<^verbatim>\<open>re.IGNORECASE\<close> but the timestamp.\<close>

definition WORD_NUMBERS :: regex where
  "WORD_NUMBERS =
     alts (map lit [''um'', ''uma'', ''dois'', ''duas'', ''tres'', ''tr'' @ [CHR 0xEA] @ ''s'',
                    ''quatro'', ''cinco'', ''seis'', ''sete'', ''oito'', ''nove'', ''dez''])"

definition ITEM_START_RE :: regex where
  "ITEM_START_RE =
     seqs [alts [Bol, plus (Lit (CHR 0x0A)), seqs [sp1, lit ''e'', sp1],
                 seqs [sp0, lit '','', sp0], seqs [sp0, lit '';'', sp0]],
           Grp 1 (alts [WORD_NUMBERS, plus dg]), WordB, sp0, opt (seqs [lit ''x'', sp0])]"

definition SEGMENT_RE :: regex where
  "SEGMENT_RE =
     seqs [Bol, Grp 1 (plus dg), sp0, opt (seqs [lit ''x'', sp0]), Grp 2 (Star (Cls Dot)), Eol]"

definition WORD_QTY_RE :: regex where
  "WORD_QTY_RE = seqs [Bol, Grp 1 WORD_NUMBERS, WordB]"

definition CUTOFF_RE :: regex where
  "CUTOFF_RE =
     seqs [WordB,
           Grp 1 (alts [seqs [lit ''para'', sp1, lit ''a''], seqs [lit ''para'', sp1, lit ''o''],
                        lit ''pagamento'', lit ''entrega'']),
           WordB]"

definition TIMESTAMP_RE :: regex where
  "TIMESTAMP_RE =
     seqs [Bol, lit ''['', dg, opt dg, lit '':'', dg, dg, lit '','', sp0,
           dg, dg, lit ''/'', dg, dg, lit ''/'', dg, dg, dg, dg, lit '']'', sp1,
           plus (Cls (NotIn '':'')), lit '':'', sp0]"

definition PERIOD_GREETINGS :: regex where
  "PERIOD_GREETINGS =
     alts [seqs [lit ''boa'', sp1, lit ''noite''], seqs [lit ''bom'', sp1, lit ''dia''],
           seqs [lit ''boa'', sp1, lit ''tarde'']]"

definition GREETING_RE :: regex where
  "GREETING_RE =
     seqs [Bol, sp0,
           Grp 1 (alts [lit ''oi'', lit ''ola'', lit (''ol'' @ [CHR 0xE1]),
                        seqs [lit ''boa'', sp1, lit ''noite''], seqs [lit ''bom'', sp1, lit ''dia''],
                        seqs [lit ''boa'', sp1, lit ''tarde''], lit ''opa'',
                        seqs [lit ''oii'', plus (Lit CHR ''i'')],
                        seqs [lit ''bia'', sp1, lit ''noite'']]),
           opt (Grp 2 (seqs [sp1, Grp 3 PERIOD_GREETINGS])), sp0, Eol]"

definition LEADING_VERBS_RE :: regex where
  "LEADING_VERBS_RE =
     seqs [Bol, sp0,
           Grp 1 (alts [seqs [lit ''gostaria'', sp1, lit ''de'', sp1, lit ''fazer'', sp1, lit ''um'',
                              sp1, lit ''pedido''],
                        seqs [lit ''gostaria'', sp1, lit ''de'', sp1, lit ''fazer''],
                        seqs [lit ''gostaria'', sp1, lit ''de''],
                        lit ''gostaria'', lit ''queria'', lit ''quero'', lit ''ve'',
                        lit (''v'' @ [CHR 0xEA]), lit ''ver'', lit ''manda'', lit ''pode'',
                        lit ''vou'', lit ''vai'']),
           WordB]"

definition CONTEXT_KEYWORDS :: "string list" where
  "CONTEXT_KEYWORDS =
     [''rua'', ''bairro'', ''numero'', ''n'' @ [CHR 0xFA] @ ''mero'', ''prox'',
      ''pr'' @ [CHR 0xF3] @ ''x'', ''pra'' @ [CHR 0xE7] @ ''a'', ''entrega'', ''entregar'',
      ''pagamento'', ''pix'', ''debito'', ''d'' @ [CHR 0xE9] @ ''bito'', ''credito'',
      ''cr'' @ [CHR 0xE9] @ ''dito'', ''cartao'', ''cart'' @ [CHR 0xE3] @ ''o'', ''troco'',
      ''casa'', ''apto'', ''apartamento'', ''blz'', ''ok'']"

definition CONTEXT_RE :: regex where
  "CONTEXT_RE =
     seqs [WordB,
           Grp 1 (alts (map lit CONTEXT_KEYWORDS
                        @ [seqs [lit ''tudo'', sp1, lit ''bem''], lit ''quantos'', lit ''deu''])),
           WordB]"

definition NOTE_KEYWORDS :: "string list" where
  "NOTE_KEYWORDS = [''cortado ao meio'', ''bem passado'']"

text \<open>The patterns written inline in the functions.\<close>

definition STRIP_GREETING_RE :: regex where
  "STRIP_GREETING_RE =
     seqs [Bol, sp0,
           Grp 1 (alts [seqs [lit ''oii'', plus (Lit CHR ''i'')], lit ''oi'', lit ''ola'',
                        lit (''ol'' @ [CHR 0xE1]),
                        seqs [lit ''boa'', sp1, lit ''noite''], seqs [lit ''bom'', sp1, lit ''dia''],
                        seqs [lit ''boa'', sp1, lit ''tarde''], lit ''opa'']),
           sp0, opt (lit '',''), sp0]"

definition STRIP_PERIOD_RE :: regex where
  "STRIP_PERIOD_RE = seqs [Bol, sp0, Grp 1 PERIOD_GREETINGS, sp0, opt (lit '',''), sp0]"

definition STRIP_EU_RE :: regex where
  "STRIP_EU_RE = seqs [Bol, sp0, lit ''eu'', sp1]"

definition STRIP_E_RE :: regex where
  "STRIP_E_RE = seqs [Bol, sp0, lit ''e'', sp1]"

definition HAS_X_RE :: regex where
  "HAS_X_RE = seqs [Bol, opt (Grp 1 (alts [WORD_NUMBERS, plus dg])), sp0, lit ''x'', WordB]"

definition ADICIONAL_RE :: regex where
  "ADICIONAL_RE = seqs [WordB, lit ''adicional'', WordB]"

definition X_WORD_RE :: regex where
  "X_WORD_RE = seqs [WordB, lit ''x'', WordB]"

definition COM_RE :: regex where
  "COM_RE = seqs [WordB, lit ''com'', WordB]"

definition X_SPACE_RE :: regex where
  "X_SPACE_RE = seqs [Bol, lit ''x'', sp1]"

definition SEM_RE :: regex where
  "SEM_RE =
     seqs [WordB, lit ''sem'', sp1, Grp 1 (lazy_plus (Cls (NotIn '',''))),
           Look (Grp 2 (alts [seqs [WordB, lit ''sem'', WordB], seqs [WordB, lit ''com'', WordB],
                              Eol]))]"

definition E_BETWEEN_RE :: regex where
  "E_BETWEEN_RE = seqs [sp1, lit ''e'', sp1]"

definition LIST_SEP_RE :: regex where
  "LIST_SEP_RE = alts [seqs [sp1, lit ''e'', sp1], lit '','']"

definition TRAILING_E_DE_RE :: regex where
  "TRAILING_E_DE_RE = seqs [WordB, Grp 1 (alts [lit ''e'', lit ''de'']), WordB, Eol]"

text \<open>\<^verbatim>\<open>_clean_text\<close> and \<^verbatim>\<open>_split_list\<close>.\<close>

definition clean_text :: "string \<Rightarrow> string" where
  "clean_text text =
     (let cleaned = py_strip_chars '',;'' (py_strip text);
          cleaned = re_sub False (Cls (In ''()'')) [] cleaned;
          cleaned = re_sub False sp1 [RText '' ''] cleaned;
          cleaned = py_strip (re_sub True TRAILING_E_DE_RE [] cleaned)
      in py_strip cleaned)"

definition split_list :: "string \<Rightarrow> string list" where
  "split_list text =
     (if text = [] then []
      else filter (\<lambda>p. p \<noteq> []) (map clean_text (re_split True LIST_SEP_RE text 0)))"

text \<open>\<^verbatim>\<open>_is_context_line\<close>.\<close>

definition is_context_line :: "string \<Rightarrow> bool" where
  "is_context_line text =
     (if re_match True GREETING_RE text \<noteq> None then True
      else re_search True CONTEXT_RE text \<noteq> None)"

text \<open>\<^verbatim>\<open>_strip_metadata\<close>.\<close>

definition strip_metadata :: "string \<Rightarrow> string" where
  "strip_metadata text =
     (let cleaned = py_strip (re_sub False TIMESTAMP_RE [] text);
          cleaned = re_sub True STRIP_GREETING_RE [] cleaned;
          cleaned = re_sub True STRIP_PERIOD_RE [] cleaned;
          cleaned = re_sub True STRIP_EU_RE [] cleaned;
          cleaned = py_strip_chars '' ,.-'' (re_sub True LEADING_VERBS_RE [] cleaned);
          cleaned = re_sub True STRIP_E_RE [] cleaned
      in py_strip cleaned)"

text \<open>\<^verbatim>\<open>_cut_context\<close>.\<close>

definition cut_context :: "string \<Rightarrow> string" where
  "cut_context text =
     (if CHR 0x0A \<in> set text then text
      else case re_search True CUTOFF_RE text of
             None \<Rightarrow> text
           | Some m \<Rightarrow> py_strip (take (m_start m) text))"

text \<open>
  \<^verbatim>\<open>_split_segments\<close>: \<open>item_segments\<close> is the inner loop over the matches, from the
  start of group 1 of a match to that of the next match, or to the end of the line.
\<close>

fun item_segments :: "string \<Rightarrow> rmatch list \<Rightarrow> string list" where
  "item_segments line [] = []"
| "item_segments line [m] =
     [py_strip_chars '' ,;'' (substr line (group_start m 1) (length line))]"
| "item_segments line (m # m' # rest) =
     py_strip_chars '' ,;'' (substr line (group_start m 1) (group_start m' 1))
       # item_segments line (m' # rest)"

definition line_segments :: "string \<Rightarrow> string list" where
  "line_segments raw_line =
     (let line = strip_metadata raw_line
      in if line = [] \<or> is_context_line line then []
         else case re_finditer True ITEM_START_RE line of
                [] \<Rightarrow> [py_strip_chars '' ,;'' line]
              | m # rest \<Rightarrow> filter (\<lambda>segment. segment \<noteq> []) (item_segments line (m # rest)))"

definition split_segments :: "string \<Rightarrow> string list" where
  "split_segments text =
     concat (map line_segments (filter (\<lambda>l. l \<noteq> []) (map py_strip (py_splitlines text))))"

text \<open>\<^verbatim>\<open>_extract_notes\<close>: the loop over the note keywords.\<close>

fun extract_notes_loop ::
  "unidecode_table \<Rightarrow> string list \<Rightarrow> string list \<Rightarrow> string \<Rightarrow> string list \<times> string" where
  "extract_notes_loop ud [] nts cleaned = (nts, cleaned)"
| "extract_notes_loop ud (keyword # rest) nts cleaned =
     (if py_in keyword (normalize_text ud cleaned)
      then extract_notes_loop ud rest (nts @ [keyword])
             (py_strip (re_sub True (lit keyword) [] cleaned))
      else extract_notes_loop ud rest nts cleaned)"

definition extract_notes :: "unidecode_table \<Rightarrow> string \<Rightarrow> string list \<times> string" where
  "extract_notes ud text = extract_notes_loop ud NOTE_KEYWORDS [] text"

text \<open>\<^verbatim>\<open>_extract_removals\<close>.\<close>

definition extract_removals :: "string \<Rightarrow> string \<times> string list" where
  "extract_removals text =
     (let rems = concat (map (\<lambda>m. split_list (py_strip (group text m 1)))
                           (re_finditer True SEM_RE text));
          cleaned = re_sub True SEM_RE [] text;
          cleaned = (if rems \<noteq> [] then re_sub True E_BETWEEN_RE [RText '' ''] cleaned
                     else cleaned)
      in (clean_text cleaned, rems))"

text \<open>
  \<^verbatim>\<open>_parse_segment\<close>. The quantity is \<^verbatim>\<open>int(match.group(1))\<close> for a segment that starts
  with digits, \<^verbatim>\<open>parse_quantity\<close> of a leading number word, and 1 otherwise.
\<close>

definition parse_segment :: "unidecode_table \<Rightarrow> string \<Rightarrow> ParsedItem" where
  "parse_segment ud segment0 =
     (let segment = py_strip segment0;
          qty_desc =
            (case re_match True SEGMENT_RE segment of
               Some m \<Rightarrow> (py_int (group segment m 1), py_strip (group segment m 2))
             | None \<Rightarrow>
                 (case re_match True WORD_QTY_RE segment of
                    Some wm \<Rightarrow> (parse_quantity ud (group segment wm 1),
                                py_strip (drop (m_end wm) segment))
                  | None \<Rightarrow> (1, py_strip segment)));
          qty = fst qty_desc;
          desc = snd qty_desc;
          raw_s = py_strip segment;
          has_x = (re_match True HAS_X_RE segment \<noteq> None);
          notes_desc = extract_notes ud desc;
          nts = fst notes_desc;
          desc = snd notes_desc;
          additional_only = (re_search False ADICIONAL_RE (normalize_text ud desc) \<noteq> None
                             \<and> re_search True X_WORD_RE raw_s = None);
          desc = py_strip (re_sub True ADICIONAL_RE [] desc);
          desc_removals = extract_removals desc;
          desc = fst desc_removals;
          rems = snd desc_removals;
          name_additions =
            (if re_search True COM_RE desc \<noteq> None
             then (case re_split True COM_RE desc 1 of
                     [b, add_part] \<Rightarrow> (b, split_list add_part)
                   | _ \<Rightarrow> (desc, []))
             else (desc, []));
          base_name = clean_text (fst name_additions);
          adds = snd name_additions;
          base_name = (if has_x \<and> re_match True X_SPACE_RE base_name = None
                       then py_strip (''x '' @ base_name) else base_name)
      in \<lparr>raw = raw_s, quantity = qty, name = base_name, additions = adds, removals = rems,
          item_notes = nts, is_additional_only = additional_only, size_hint = None,
          match_text = base_name\<rparr>)"

text \<open>\<^verbatim>\<open>parse_order_text\<close>.\<close>

definition parse_order_text :: "unidecode_table \<Rightarrow> string \<Rightarrow> ParsedItem list" where
  "parse_order_text ud text =
     (if text = [] then []
      else map (parse_segment ud) (split_segments (cut_context text)))"

subsection \<open>\<^verbatim>\<open>app/services/interpreter/resolver.py\<close>\<close>

definition SIZE_HINT_PATTERNS :: "(regex \<times> string) list" where
  "SIZE_HINT_PATTERNS =
     [(seqs [WordB,
             Grp 1 (alts [lit ''1/4'', seqs [lit ''um'', sp1, lit ''quarto''],
                          seqs [lit ''porcao'', sp1, lit ''pequena''],
                          seqs [lit ''porcao'', sp1, lit ''pequena'']]),
             WordB], ''1/4''),
      (seqs [WordB,
             Grp 1 (alts [lit ''1/2'', seqs [lit ''meia'', sp1, lit ''porcao''],
                          seqs [lit ''meia'', sp1, lit ''porcao''], lit ''meia'']),
             WordB], ''1/2'')]"

definition extract_size_hint :: "string \<Rightarrow> string option" where
  "extract_size_hint text =
     (case find (\<lambda>(pattern, hint). re_search True pattern text \<noteq> None) SIZE_HINT_PATTERNS of
        None \<Rightarrow> None
      | Some (pattern, hint) \<Rightarrow> Some hint)"

definition compact_spaces :: "string \<Rightarrow> string" where
  "compact_spaces text = py_strip (re_sub False sp1 [RText '' ''] text)"

text \<open>\<^verbatim>\<open>_dedupe\<close>: the loop with its set \<open>seen\<close> and its list \<open>result\<close>.\<close>

fun dedupe_loop :: "string list \<Rightarrow> string set \<Rightarrow> string list \<Rightarrow> string list" where
  "dedupe_loop [] seen result = result"
| "dedupe_loop (x # xs) seen result =
     (if x \<notin> seen then dedupe_loop xs (insert x seen) (result @ [x])
      else dedupe_loop xs seen result)"

definition dedupe :: "string list \<Rightarrow> string list" where
  "dedupe xs = dedupe_loop xs {} []"

text \<open>The rewrite patterns of \<^verbatim>\<open>_resolve_item\<close>, in the order of their use.\<close>

definition X_GLUED_RE :: regex where
  "X_GLUED_RE = seqs [Bol, lit ''x'', Look (Cls (Rng CHR ''a'' CHR ''z''))]"

definition COMPLETO_RE :: regex where
  "COMPLETO_RE = seqs [WordB, lit ''complet'', Cls (In ''oa''), opt (lit ''s''), WordB]"

definition BURGER_RE :: regex where
  "BURGER_RE = seqs [WordB, lit ''burger'', WordB]"

definition X_BURG_RE :: regex where
  "X_BURG_RE = seqs [WordB, lit ''x'', sp1, lit ''burg'', WordB]"

definition MIGON_RE :: regex where
  "MIGON_RE = seqs [WordB, lit ''migon'', WordB]"

definition EVILHA_RE :: regex where
  "EVILHA_RE = seqs [WordB, lit ''evilha'', WordB]"

definition TBM_RE :: regex where
  "TBM_RE = seqs [WordB, lit ''tbm'', WordB]"

definition TAMBEM_RE :: regex where
  "TAMBEM_RE = seqs [WordB, lit ''tambem'', WordB]"

definition COCA_RE :: regex where
  "COCA_RE = seqs [WordB, lit ''coca'', WordB]"

definition BATA_FRITA_RE :: regex where
  "BATA_FRITA_RE = seqs [WordB, lit ''bata'', sp1, lit ''frita'', WordB]"

definition LITROS_RE :: regex where
  "LITROS_RE =
     seqs [WordB, Grp 1 (plus dg), sp0, lit ''l'', opt (Grp 2 (alts [lit ''t'', lit ''itros''])),
           WordB]"

text \<open>
  \<^verbatim>\<open>_resolve_item\<close> assigns to the fields of the object it is given and returns that
  object. \<open>resolve_item\<close> is the content of the object after the call, from its content
  before: \<^verbatim>\<open>additions\<close>, \<^verbatim>\<open>removals\<close>, \<^verbatim>\<open>size_hint\<close> and \<^verbatim>\<open>match_text\<close> are assigned.
\<close>

definition resolve_item :: "unidecode_table \<Rightarrow> ParsedItem \<Rightarrow> ParsedItem" where
  "resolve_item ud item =
     (let base = normalize_text ud (name item);
          base = re_sub True X_GLUED_RE [RText ''x ''] base;
          careca = py_in ''careca'' base;
          base = (if careca then py_strip (py_replace ''careca'' '' '' base) else base);
          rems = (if careca then removals item @ [''salada geral''] else removals item);
          base = py_strip (re_sub True COMPLETO_RE [] base);
          base = re_sub True BURGER_RE [RText ''burguer''] base;
          base = re_sub True X_BURG_RE [RText ''x burguer''] base;
          base = re_sub True MIGON_RE [RText ''mignon''] base;
          base = re_sub True EVILHA_RE [RText ''ervilha''] base;
          base = re_sub True TBM_RE [] base;
          base = re_sub True TAMBEM_RE [] base;
          base = (if \<not> py_in ''coca cola'' base
                  then re_sub True COCA_RE [RText ''coca cola''] base else base);
          base = re_sub True BATA_FRITA_RE [RText ''batata frita''] base;
          hint = (case extract_size_hint base of Some h \<Rightarrow> Some h | None \<Rightarrow> size_hint item);
          base = (if py_in ''batata frita'' base
                  then (if py_in ''tradicional'' base then ''batata frita tradicional''
                        else ''batata frita'')
                  else base);
          base = re_sub True LITROS_RE [RGroup 1, RText '' litros''] base;
          adds = map (normalize_text ud) (filter (\<lambda>a. a \<noteq> []) (additions item));
          normalized_removals =
            map (\<lambda>removal. re_sub True EVILHA_RE [RText ''ervilha''] (normalize_text ud removal))
              (filter (\<lambda>removal. removal \<noteq> []) rems);
          rems = dedupe normalized_removals;
          merged = (py_in ''batata frita'' base \<and> adds \<noteq> []);
          base = (if merged then py_strip (base @ '' '' @ py_join '' '' adds) else base);
          adds = (if merged then [] else adds)
      in item\<lparr>additions := adds, removals := rems, size_hint := hint,
              match_text := compact_spaces base\<rparr>)"

text \<open>
  The objects live in a store, from references to their contents; a list of items is a
  list of references. \<^verbatim>\<open>_resolve_item\<close> updates the object in place and returns its
  reference; \<^verbatim>\<open>resolve_parsed_items\<close> collects the returned references in a new list.
\<close>

type_synonym ref = nat
type_synonym store = "ref \<Rightarrow> ParsedItem"

definition resolve_item_at :: "unidecode_table \<Rightarrow> ref \<Rightarrow> store \<Rightarrow> ref \<times> store" where
  "resolve_item_at ud r st = (r, st(r := resolve_item ud (st r)))"

fun resolve_loop :: "unidecode_table \<Rightarrow> ref list \<Rightarrow> ref list \<Rightarrow> store \<Rightarrow> ref list \<times> store" where
  "resolve_loop ud [] resolved st = (resolved, st)"
| "resolve_loop ud (r # rest) resolved st =
     (let returned = resolve_item_at ud r st
      in resolve_loop ud rest (resolved @ [fst returned]) (snd returned))"

definition resolve_parsed_items :: "unidecode_table \<Rightarrow> ref list \<Rightarrow> store \<Rightarrow> ref list \<times> store" where
  "resolve_parsed_items ud refs st = resolve_loop ud refs [] st"

subsection \<open>\<^verbatim>\<open>app/core/schemas.py\<close>: the records the matcher builds\<close>

datatype error = ValidationError

datatype PendencyReason =
    PRODUTO_NAO_ENCONTRADO
  | ADICIONAL_NAO_ENCONTRADO
  | QUANTIDADE_INVALIDA
  | MODIFICACAO_NAO_PERMITIDA
  | AMBIGUIDADE

record CartItemAddition =
  a_pdv :: string
  a_nome :: string
  a_quantidade :: int
  a_preco_unitario :: rat

record CartItem =
  c_pdv :: string
  c_nome :: string
  c_quantidade :: int
  c_preco_unitario :: rat
  adicionais :: "CartItemAddition list"
  observacoes :: string
  preco_total_unitario :: rat
  preco_total :: rat

datatype extra = EStr string | EInt int

record CartPendency =
  motivo :: PendencyReason
  texto_original :: string
  sugestoes :: "string list"
  dados_extras :: "(string \<times> extra) list"

record InterpretedOrder =
  items :: "CartItem list"
  pendencies :: "CartPendency list"
  raw_text :: string
  confidence :: rat

text \<open>
  The constructors validate the \<^verbatim>\<open>Field\<close> constraints: \<^verbatim>\<open>quantidade\<close> \<^verbatim>\<open>ge=1, le=10\<close> and
  \<^verbatim>\<open>preco_unitario\<close> \<^verbatim>\<open>ge=0\<close> for an addition; \<^verbatim>\<open>ge=1, le=50\<close>, \<^verbatim>\<open>ge=0\<close> and
  \<^verbatim>\<open>observacoes\<close> \<^verbatim>\<open>max_length=500\<close> for a cart item, whose totals \<^verbatim>\<open>calculate_totals\<close> fills
  in; \<^verbatim>\<open>sugestoes\<close> \<^verbatim>\<open>max_length=5\<close> for a pendency; \<^verbatim>\<open>confidence\<close> \<^verbatim>\<open>ge=0, le=1\<close> for the result.

  \<^verbatim>\<open>calculate_totals\<close> works on \<^verbatim>\<open>Decimal\<close> values: \<^verbatim>\<open>sum\<close> starts from the integer 0 and adds
  the products \<^verbatim>\<open>a.preco_unitario * a.quantidade\<close> from left to right, each product and each
  sum rounded by the context; then \<^verbatim>\<open>preco_unitario + adicionais_total\<close> and its product with
  \<^verbatim>\<open>quantidade\<close> are rounded in the same way. The result is the pair of
  \<^verbatim>\<open>preco_total_unitario\<close> and \<^verbatim>\<open>preco_total\<close>.
\<close>

definition new_CartItemAddition :: "string \<Rightarrow> string \<Rightarrow> int \<Rightarrow> rat \<Rightarrow> error + CartItemAddition" where
  "new_CartItemAddition p n q pr =
     (if 1 \<le> q \<and> q \<le> 10 \<and> 0 \<le> pr
      then Inr \<lparr>a_pdv = p, a_nome = n, a_quantidade = q, a_preco_unitario = pr\<rparr>
      else Inl ValidationError)"

definition calculate_totals :: "rat \<Rightarrow> CartItemAddition list \<Rightarrow> int \<Rightarrow> rat \<times> rat" where
  "calculate_totals pr adds q =
     (let adicionais_total =
            foldl (\<lambda>acc a. dec_round (acc + dec_round (a_preco_unitario a * of_int (a_quantidade a))))
              0 adds;
          total_unitario = dec_round (pr + adicionais_total)
      in (total_unitario, dec_round (total_unitario * of_int q)))"

definition new_CartItem ::
  "string \<Rightarrow> string \<Rightarrow> int \<Rightarrow> rat \<Rightarrow> CartItemAddition list \<Rightarrow> string \<Rightarrow> error + CartItem" where
  "new_CartItem p n q pr adds obs =
     (if 1 \<le> q \<and> q \<le> 50 \<and> 0 \<le> pr \<and> length obs \<le> 500
      then
        let totals = calculate_totals pr adds q
        in Inr \<lparr>c_pdv = p, c_nome = n, c_quantidade = q, c_preco_unitario = pr,
                adicionais = adds, observacoes = obs,
                preco_total_unitario = fst totals, preco_total = snd totals\<rparr>
      else Inl ValidationError)"

definition new_CartPendency ::
  "PendencyReason \<Rightarrow> string \<Rightarrow> string list \<Rightarrow> (string \<times> extra) list \<Rightarrow> error + CartPendency" where
  "new_CartPendency m t sug ex =
     (if length sug \<le> 5
      then Inr \<lparr>motivo = m, texto_original = t, sugestoes = sug, dados_extras = ex\<rparr>
      else Inl ValidationError)"

definition new_InterpretedOrder ::
  "CartItem list \<Rightarrow> CartPendency list \<Rightarrow> string \<Rightarrow> rat \<Rightarrow> error + InterpretedOrder" where
  "new_InterpretedOrder its ps txt conf =
     (if 0 \<le> conf \<and> conf \<le> 1
      then Inr \<lparr>items = its, pendencies = ps, raw_text = txt, confidence = conf\<rparr>
      else Inl ValidationError)"

subsection \<open>\<^verbatim>\<open>app/services/interpreter/matcher.py\<close>\<close>

text \<open>
  A row of \<^verbatim>\<open>menu_index\<close> (view \<^verbatim>\<open>v_menu_search_index\<close>): \<^verbatim>\<open>pdv, parent_pdv,
  nome_original, price, item_type, fingerprint\<close>. \<open>None\<close> is SQL \<^verbatim>\<open>NULL\<close>. The field \<open>price\<close> holds
  the number that \<^verbatim>\<open>_to_decimal\<close> makes of the cell: the \<^verbatim>\<open>Decimal\<close> itself, or
  \<^verbatim>\<open>Decimal(str(value))\<close> for another number.
\<close>

record MenuEntry =
  pdv :: string
  parent_pdv :: "string option"
  nome_original :: string
  price :: "rat option"
  item_type :: string
  fingerprint :: string

definition build_menu_index ::
  "MenuEntry list \<Rightarrow> MenuEntry list \<times> (string option \<Rightarrow> MenuEntry list)" where
  "build_menu_index menu_index =
     (filter (\<lambda>entry. item_type entry = ''product'') menu_index,
      \<lambda>parent. filter (\<lambda>entry. item_type entry = ''addition'' \<and> parent_pdv entry = parent)
                  menu_index)"

definition best_match :: "scorer \<Rightarrow> unidecode_table \<Rightarrow> string \<Rightarrow> MenuEntry list \<Rightarrow> MenuEntry option" where
  "best_match sc ud query products =
     (if products = [] then None
      else
        let names = map nome_original products
        in case fst (find_best_match sc ud query names (round64 (6 / 10))) of
             None \<Rightarrow> None
           | Some match_name \<Rightarrow>
               if match_name = [] then None
               else find (\<lambda>p. nome_original p = match_name) products)"

definition filter_by_size_hint :: "unidecode_table \<Rightarrow> MenuEntry list \<Rightarrow> string \<Rightarrow> MenuEntry list" where
  "filter_by_size_hint ud products hint =
     (let tokens = (if hint = ''1/4'' then [''1/4'', ''1/4 por'', ''1/4 porcao'']
                    else if hint = ''1/2'' then [''meia'', ''1/2'']
                    else []);
          filtered = filter (\<lambda>p. \<exists>token \<in> set tokens.
                                    py_in token (normalize_text ud (nome_original p))) products
      in if filtered \<noteq> [] then filtered else products)"

definition filter_plain_batata :: "unidecode_table \<Rightarrow> MenuEntry list \<Rightarrow> MenuEntry list" where
  "filter_plain_batata ud products =
     (let forbidden = [''bacon'', ''queijo'', ''calabresa'', ''frango'', ''cheddar'', ''coracao'',
                       ''catupiry'', ''mussarela'', ''tres''];
          filtered = filter (\<lambda>p. let name_norm = normalize_text ud (nome_original p)
                                  in py_in ''batata frita'' name_norm
                                     \<and> \<not> (\<exists>word \<in> set forbidden. py_in word name_norm)) products
      in if filtered \<noteq> [] then filtered else products)"

definition or_else :: "'a option \<Rightarrow> 'a option \<Rightarrow> 'a option" where
  "or_else a b = (case a of Some x \<Rightarrow> Some x | None \<Rightarrow> b)"

definition has_size_hint :: "ParsedItem \<Rightarrow> bool" where
  "has_size_hint item = (case size_hint item of None \<Rightarrow> False | Some h \<Rightarrow> h \<noteq> [])"

text \<open>The four category filters of \<^verbatim>\<open>_match_product\<close>; \<open>None\<close> falls through to the next.\<close>

definition match_batata_topping ::
  "scorer \<Rightarrow> unidecode_table \<Rightarrow> ParsedItem \<Rightarrow> string \<Rightarrow> string \<Rightarrow> MenuEntry list \<Rightarrow> MenuEntry option" where
  "match_batata_topping sc ud item query query_norm products =
     (if py_in ''batata frita'' query_norm
         \<and> (py_in ''bacon'' query_norm \<or> py_in ''queijo'' query_norm)
      then
        let required_tokens = (if py_in ''bacon'' query_norm then [''bacon''] else [])
                              @ (if py_in ''queijo'' query_norm then [''queijo''] else []);
            filtered = filter (\<lambda>p. let name_norm = normalize_text ud (nome_original p)
                                    in py_in ''batata frita'' name_norm
                                       \<and> (\<forall>token \<in> set required_tokens. py_in token name_norm))
                         products
        in if filtered \<noteq> []
           then best_match sc ud query
                  (if has_size_hint item
                   then filter_by_size_hint ud filtered (the (size_hint item)) else filtered)
           else None
      else None)"

definition match_suco_morango ::
  "scorer \<Rightarrow> unidecode_table \<Rightarrow> string \<Rightarrow> string \<Rightarrow> MenuEntry list \<Rightarrow> MenuEntry option" where
  "match_suco_morango sc ud query query_norm products =
     (if py_in ''suco'' query_norm \<and> py_in ''morango'' query_norm
      then
        let filtered = filter (\<lambda>p. py_in ''suco'' (normalize_text ud (nome_original p))
                                    \<and> py_in ''morango'' (normalize_text ud (nome_original p)))
                         products
        in if filtered \<noteq> [] then best_match sc ud query filtered else None
      else None)"

definition match_batata_tradicional ::
  "scorer \<Rightarrow> unidecode_table \<Rightarrow> ParsedItem \<Rightarrow> string \<Rightarrow> string \<Rightarrow> MenuEntry list \<Rightarrow> MenuEntry option" where
  "match_batata_tradicional sc ud item query query_norm products =
     (if py_in ''batata frita'' query_norm \<and> py_in ''tradicional'' query_norm
      then
        let filtered = filter_plain_batata ud products
        in best_match sc ud query
             (if has_size_hint item
              then filter_by_size_hint ud filtered (the (size_hint item)) else filtered)
      else None)"

definition match_batata_size ::
  "scorer \<Rightarrow> unidecode_table \<Rightarrow> ParsedItem \<Rightarrow> string \<Rightarrow> string \<Rightarrow> MenuEntry list \<Rightarrow> MenuEntry option" where
  "match_batata_size sc ud item query query_norm products =
     (if has_size_hint item \<and> py_in ''batata frita'' query_norm
      then best_match sc ud query (filter_by_size_hint ud products (the (size_hint item)))
      else None)"

definition match_product ::
  "scorer \<Rightarrow> unidecode_table \<Rightarrow> ParsedItem \<Rightarrow> MenuEntry list \<Rightarrow> MenuEntry option" where
  "match_product sc ud item products =
     (let query = (if match_text item \<noteq> [] then match_text item else name item);
          query_fp = make_fingerprint ud query
      in case filter (\<lambda>p. fingerprint p = query_fp) products of
           [p] \<Rightarrow> Some p
         | _ \<Rightarrow>
           let query_norm = normalize_text ud query
           in or_else (match_batata_topping sc ud item query query_norm products)
             (or_else (match_suco_morango sc ud query query_norm products)
             (or_else (match_batata_tradicional sc ud item query query_norm products)
             (or_else (match_batata_size sc ud item query query_norm products)
                (best_match sc ud query products)))))"

definition addition_label :: "unidecode_table \<Rightarrow> MenuEntry \<Rightarrow> string" where
  "addition_label ud entry =
     py_strip (py_replace ''adicionais'' []
                 (py_replace ''adicionais no prato'' [] (normalize_text ud (nome_original entry))))"

definition clean_addition_name :: "string \<Rightarrow> string" where
  "clean_addition_name n =
     py_strip (py_replace ''Adicionais no Prato '' [] (py_replace ''Adicionais '' [] n))"

definition match_addition ::
  "scorer \<Rightarrow> unidecode_table \<Rightarrow> string \<Rightarrow> MenuEntry list \<Rightarrow> MenuEntry option" where
  "match_addition sc ud text adds =
     (if adds = [] then None
      else
        let query_fp = make_fingerprint ud text
        in or_else
             (find (\<lambda>entry. make_fingerprint ud (addition_label ud entry) = query_fp) adds)
             (let labels = map (addition_label ud) adds
              in case fst (find_best_match sc ud text labels (round64 (6 / 10))) of
                   None \<Rightarrow> None
                 | Some match_name \<Rightarrow>
                     if match_name = [] then None
                     else find (\<lambda>entry. addition_label ud entry = match_name) adds))"

definition suggest_products :: "scorer \<Rightarrow> unidecode_table \<Rightarrow> string \<Rightarrow> MenuEntry list \<Rightarrow> string list" where
  "suggest_products sc ud query products =
     map fst (find_matches sc ud query (map nome_original products) (round64 (6 / 10)) 5)"

definition suggest_additions :: "scorer \<Rightarrow> unidecode_table \<Rightarrow> string \<Rightarrow> MenuEntry list \<Rightarrow> string list" where
  "suggest_additions sc ud query adds =
     map fst (find_matches sc ud query (map (addition_label ud) adds) (round64 (6 / 10)) 5)"

definition to_decimal :: "rat option \<Rightarrow> rat" where
  "to_decimal v = (case v of None \<Rightarrow> 0 | Some d \<Rightarrow> d)"

text \<open>
  \<^verbatim>\<open>_match_additions\<close>: the loop over \<^verbatim>\<open>item.additions\<close>, with the list \<open>results\<close> it builds
  and the caller's list \<open>pends\<close> it appends to.
\<close>

fun match_additions_loop ::
  "scorer \<Rightarrow> unidecode_table \<Rightarrow> MenuEntry list \<Rightarrow> MenuEntry \<Rightarrow> string list
   \<Rightarrow> CartItemAddition list \<Rightarrow> CartPendency list
   \<Rightarrow> error + (CartItemAddition list \<times> CartPendency list)" where
  "match_additions_loop sc ud adds product [] results pends = Inr (results, pends)"
| "match_additions_loop sc ud adds product (addition_text # rest) results pends =
     (case match_addition sc ud addition_text adds of
        None \<Rightarrow>
          (case new_CartPendency ADICIONAL_NAO_ENCONTRADO addition_text
                  (suggest_additions sc ud addition_text adds)
                  [(''produto_base'', EStr (nome_original product))] of
             Inl e \<Rightarrow> Inl e
           | Inr pend \<Rightarrow> match_additions_loop sc ud adds product rest results (pends @ [pend]))
      | Some matched \<Rightarrow>
          (case new_CartItemAddition (pdv matched) (clean_addition_name (nome_original matched)) 1
                  (to_decimal (price matched)) of
             Inl e \<Rightarrow> Inl e
           | Inr a \<Rightarrow> match_additions_loop sc ud adds product rest (results @ [a]) pends))"

definition match_additions ::
  "scorer \<Rightarrow> unidecode_table \<Rightarrow> ParsedItem \<Rightarrow> MenuEntry list \<Rightarrow> CartPendency list \<Rightarrow> MenuEntry
   \<Rightarrow> error + (CartItemAddition list \<times> CartPendency list)" where
  "match_additions sc ud item adds pends product =
     (if additions item = [] then Inr ([], pends)
      else match_additions_loop sc ud adds product (additions item) [] pends)"

definition pendency_for_additional_only ::
  "scorer \<Rightarrow> unidecode_table \<Rightarrow> ParsedItem \<Rightarrow> MenuEntry list \<Rightarrow> error + CartPendency" where
  "pendency_for_additional_only sc ud item products =
     new_CartPendency ADICIONAL_NAO_ENCONTRADO (raw item)
       (suggest_products sc ud (name item) products)
       [(''quantidade'', EInt (quantity item)), (''adicional'', EStr (name item))]"

definition pendency_for_missing_product ::
  "scorer \<Rightarrow> unidecode_table \<Rightarrow> ParsedItem \<Rightarrow> MenuEntry list \<Rightarrow> error + CartPendency" where
  "pendency_for_missing_product sc ud item products =
     new_CartPendency PRODUTO_NAO_ENCONTRADO (raw item)
       (suggest_products sc ud (if match_text item \<noteq> [] then match_text item else name item)
          products)
       [(''quantidade'', EInt (quantity item))]"

definition build_observacoes :: "ParsedItem \<Rightarrow> string" where
  "build_observacoes item =
     py_join '' | ''
       ((if removals item \<noteq> [] then [''Sem: '' @ py_join '', '' (removals item)] else [])
        @ (if item_notes item \<noteq> [] then [''Obs: '' @ py_join '', '' (item_notes item)] else []))"

text \<open>
  \<^verbatim>\<open>_compute_confidence\<close>: \<^verbatim>\<open>max(0.1, 1.0 - (0.2 * count))\<close> in \<^verbatim>\<open>float\<close> arithmetic. The literals
  \<^verbatim>\<open>0.1\<close> and \<^verbatim>\<open>0.2\<close> are the binary64 values nearest to 1/10 and 2/10, \<^verbatim>\<open>count\<close> is
  converted to a \<^verbatim>\<open>float\<close>, and the product and the difference are rounded.
\<close>

definition compute_confidence :: "CartPendency list \<Rightarrow> rat" where
  "compute_confidence pends =
     (let count = length pends
      in max (round64 (1 / 10))
             (round64 (1 - round64 (round64 (2 / 10) * round64 (of_nat count)))))"

text \<open>
  The loop of \<^verbatim>\<open>match_items\<close> over the parsed items, with the two lists it fills. A
  validation error raised while a record is built ends the call.
\<close>

fun match_items_loop ::
  "scorer \<Rightarrow> unidecode_table \<Rightarrow> MenuEntry list \<Rightarrow> (string option \<Rightarrow> MenuEntry list)
   \<Rightarrow> ParsedItem list \<Rightarrow> CartItem list \<Rightarrow> CartPendency list
   \<Rightarrow> error + (CartItem list \<times> CartPendency list)" where
  "match_items_loop sc ud products additions_by_parent [] interpreted pends =
     Inr (interpreted, pends)"
| "match_items_loop sc ud products additions_by_parent (item # rest) interpreted pends =
     (if is_additional_only item
      then (case pendency_for_additional_only sc ud item products of
              Inl e \<Rightarrow> Inl e
            | Inr pend \<Rightarrow>
                match_items_loop sc ud products additions_by_parent rest interpreted (pends @ [pend]))
      else
        (case match_product sc ud item products of
           None \<Rightarrow>
             (case pendency_for_missing_product sc ud item products of
                Inl e \<Rightarrow> Inl e
              | Inr pend \<Rightarrow>
                  match_items_loop sc ud products additions_by_parent rest interpreted
                    (pends @ [pend]))
         | Some product \<Rightarrow>
             (case match_additions sc ud item (additions_by_parent (Some (pdv product))) pends
                     product of
                Inl e \<Rightarrow> Inl e
              | Inr (adds, pends') \<Rightarrow>
                  (case new_CartItem (pdv product) (nome_original product) (quantity item)
                          (to_decimal (price product)) adds (build_observacoes item) of
                     Inl e \<Rightarrow> Inl e
                   | Inr cart_item \<Rightarrow>
                       match_items_loop sc ud products additions_by_parent rest
                         (interpreted @ [cart_item]) pends'))))"

definition match_items ::
  "scorer \<Rightarrow> unidecode_table \<Rightarrow> ParsedItem list \<Rightarrow> MenuEntry list \<Rightarrow> string
   \<Rightarrow> error + InterpretedOrder" where
  "match_items sc ud parsed menu_index raw_txt =
     (let menu = build_menu_index menu_index;
          products = fst menu;
          additions_by_parent = snd menu
      in case match_items_loop sc ud products additions_by_parent parsed [] [] of
           Inl e \<Rightarrow> Inl e
         | Inr (interpreted, pends) \<Rightarrow>
             new_InterpretedOrder interpreted pends raw_txt (compute_confidence pends))"

subsection \<open>The pipeline (\<^verbatim>\<open>run_test\<close> of \<^verbatim>\<open>scripts/test_order_interpreter.py\<close>)\<close>

text \<open>
  \<^verbatim>\<open>parsed = parse_order_text(text); resolved = resolve_parsed_items(parsed);
  result = match_items(resolved, menu_index, raw_text=text)\<close>. The items that the parser
  creates are new objects: \<open>new_objects\<close> puts them at the references \<open>0, 1, ...\<close> of a store.
\<close>

definition blank_item :: ParsedItem where
  "blank_item =
     \<lparr>raw = [], quantity = 1, name = [], additions = [], removals = [], item_notes = [],
      is_additional_only = False, size_hint = None, match_text = []\<rparr>"

fun store_items :: "ref \<Rightarrow> ParsedItem list \<Rightarrow> store \<Rightarrow> store" where
  "store_items r [] st = st"
| "store_items r (x # xs) st = store_items (Suc r) xs (st(r := x))"

definition new_objects :: "ParsedItem list \<Rightarrow> ref list \<times> store" where
  "new_objects xs = ([0..<length xs], store_items 0 xs (\<lambda>r. blank_item))"

definition run_pipeline ::
  "scorer \<Rightarrow> unidecode_table \<Rightarrow> string \<Rightarrow> MenuEntry list \<Rightarrow> error + InterpretedOrder" where
  "run_pipeline sc ud text menu_index =
     (let created = new_objects (parse_order_text ud text);
          parsed = fst created;
          resolved_store = resolve_parsed_items ud parsed (snd created);
          resolved = fst resolved_store
      in match_items sc ud (map (snd resolved_store) resolved) menu_index text)"

subsection \<open>Sample instances of the library parameters, for the concrete examples\<close>

text \<open>
  A transliteration table: the entries of \<^verbatim>\<open>unidecode\<close> for ASCII (each character
  itself) and for the Latin-1 letters (the letter without its diacritic); every other
  character is dropped. The examples below use ASCII text only.
\<close>

definition sample_unidecode :: unidecode_table where
  "sample_unidecode c =
     (let n = (of_char c :: int)
      in if n < 128 then [c]
         else if 192 \<le> n \<and> n \<le> 197 then ''A'' else if n = 198 then ''AE''
         else if n = 199 then ''C'' else if 200 \<le> n \<and> n \<le> 203 then ''E''
         else if 204 \<le> n \<and> n \<le> 207 then ''I'' else if n = 208 then ''D''
         else if n = 209 then ''N'' else if 210 \<le> n \<and> n \<le> 214 then ''O''
         else if n = 215 then ''x'' else if n = 216 then ''O''
         else if 217 \<le> n \<and> n \<le> 220 then ''U'' else if n = 221 then ''Y''
         else if n = 222 then ''Th'' else if n = 223 then ''ss''
         else if 224 \<le> n \<and> n \<le> 229 then ''a'' else if n = 230 then ''ae''
         else if n = 231 then ''c'' else if 232 \<le> n \<and> n \<le> 235 then ''e''
         else if 236 \<le> n \<and> n \<le> 239 then ''i'' else if n = 240 then ''d''
         else if n = 241 then ''n'' else if 242 \<le> n \<and> n \<le> 246 then ''o''
         else if n = 247 then ''/'' else if n = 248 then ''o''
         else if 249 \<le> n \<and> n \<le> 252 then ''u'' else if n = 253 then ''y''
         else if n = 254 then ''th'' else if n = 255 then ''y''
         else [])"

text \<open>
  A scorer: \<^verbatim>\<open>rapidfuzz.fuzz.ratio\<close>, the normalised indel similarity
  \<open>100 * 2 * lcs / (len a + len b)\<close>.
\<close>

fun lcs_length :: "string \<Rightarrow> string \<Rightarrow> nat" where
  "lcs_length [] ys = 0"
| "lcs_length (x # xs) [] = 0"
| "lcs_length (x # xs) (y # ys) =
     (if x = y then Suc (lcs_length xs ys)
      else max (lcs_length xs (y # ys)) (lcs_length (x # xs) ys))"

definition fuzz_ratio :: scorer where
  "fuzz_ratio a b =
     (if a = [] \<and> b = [] then 100
      else 200 * of_nat (lcs_length a b) / of_nat (length a + length b))"

definition x_salada :: MenuEntry where
  "x_salada = \<lparr>pdv = ''23137463'', parent_pdv = None, nome_original = ''X Salada'',
                price = Some 25, item_type = ''product'', fingerprint = ''xsalada''\<rparr>"

definition bacon :: MenuEntry where
  "bacon = \<lparr>pdv = ''900'', parent_pdv = Some ''23137463'', nome_original = ''Adicionais Bacon'',
             price = Some 5, item_type = ''addition'', fingerprint = ''adicionaisbacon''\<rparr>"

definition sample_menu :: "MenuEntry list" where
  "sample_menu = [x_salada, bacon]"

definition sample_item :: ParsedItem where
  "sample_item =
     \<lparr>raw = ''1 x salada com bacon e foo'', quantity = 1, name = ''x salada'',
      additions = [''bacon'', ''foo''], removals = [], item_notes = [],
      is_additional_only = False, size_hint = None, match_text = ''x salada''\<rparr>"

text \<open>The same line with a quantity above the 50 that the schema of a cart item allows.\<close>

definition oversized_item :: ParsedItem where
  "oversized_item =
     \<lparr>raw = ''51 x salada com bacon e foo'', quantity = 51, name = ''x salada'',
      additions = [''bacon'', ''foo''], removals = [], item_notes = [],
      is_additional_only = False, size_hint = None, match_text = ''x salada''\<rparr>"

definition sample_result :: InterpretedOrder where
  "sample_result =
     \<lparr>items = [\<lparr>c_pdv = ''23137463'', c_nome = ''X Salada'', c_quantidade = 1,
                c_preco_unitario = 25,
                adicionais = [\<lparr>a_pdv = ''900'', a_nome = ''Bacon'', a_quantidade = 1,
                               a_preco_unitario = 5\<rparr>],
                observacoes = [], preco_total_unitario = 30, preco_total = 30\<rparr>],
      pendencies = [\<lparr>motivo = ADICIONAL_NAO_ENCONTRADO, texto_original = ''foo'',
                      sugestoes = [], dados_extras = [(''produto_base'', EStr ''X Salada'')]\<rparr>],
      raw_text = ''1 x salada com bacon e foo'', confidence = round64 (4 / 5)\<rparr>"

definition empty_result :: InterpretedOrder where
  "empty_result = \<lparr>items = [], pendencies = [], raw_text = [], confidence = 1\<rparr>"

text \<open>A line that no product of the sample menu matches, and the result for three such lines.\<close>

definition pizza_item :: ParsedItem where
  "pizza_item =
     \<lparr>raw = ''1 pizza'', quantity = 1, name = ''pizza'', additions = [], removals = [],
      item_notes = [], is_additional_only = False, size_hint = None, match_text = ''pizza''\<rparr>"

definition pizza_pendency :: CartPendency where
  "pizza_pendency =
     \<lparr>motivo = PRODUTO_NAO_ENCONTRADO, texto_original = ''1 pizza'', sugestoes = [],
      dados_extras = [(''quantidade'', EInt 1)]\<rparr>"

definition three_pizzas_result :: InterpretedOrder where
  "three_pizzas_result =
     \<lparr>items = [], pendencies = [pizza_pendency, pizza_pendency, pizza_pendency],
      raw_text = [], confidence = 3602879701896396 / 2 ^ 53\<rparr>"

text \<open>Lines of the examples, as the parser returns them, and a message of two lines.\<close>

definition dup_item :: ParsedItem where
  "dup_item =
     \<lparr>raw = ''1 x salada com bacon e bacon'', quantity = 1, name = ''x salada'',
      additions = [''bacon'', ''bacon''], removals = [], item_notes = [],
      is_additional_only = False, size_hint = None, match_text = ''x salada''\<rparr>"

definition careca_item :: ParsedItem where
  "careca_item =
     \<lparr>raw = ''1 x galinha careca'', quantity = 1, name = ''x galinha careca'',
      additions = [], removals = [], item_notes = [],
      is_additional_only = False, size_hint = None, match_text = ''x galinha careca''\<rparr>"

definition two_lines :: string where
  "two_lines = ''2 x salada para a rua A'' @ [CHR 0x0A] @ ''1 coca''"

subsection \<open>Vocabulary of the statements\<close>

text \<open>The addition and the pendency that \<^verbatim>\<open>_match_additions\<close> builds, and the cart line of
  \<^verbatim>\<open>match_items\<close>, as values.\<close>

definition mk_addition :: "MenuEntry \<Rightarrow> CartItemAddition" where
  "mk_addition e = \<lparr>a_pdv = pdv e, a_nome = clean_addition_name (nome_original e),
                     a_quantidade = 1, a_preco_unitario = to_decimal (price e)\<rparr>"

definition mk_addition_pendency ::
  "scorer \<Rightarrow> unidecode_table \<Rightarrow> MenuEntry list \<Rightarrow> MenuEntry \<Rightarrow> string \<Rightarrow> CartPendency" where
  "mk_addition_pendency sc ud adds product t =
     \<lparr>motivo = ADICIONAL_NAO_ENCONTRADO, texto_original = t,
      sugestoes = suggest_additions sc ud t adds,
      dados_extras = [(''produto_base'', EStr (nome_original product))]\<rparr>"

definition mk_cart_item ::
  "scorer \<Rightarrow> unidecode_table \<Rightarrow> ParsedItem \<Rightarrow> MenuEntry \<Rightarrow> MenuEntry list \<Rightarrow> CartItem" where
  "mk_cart_item sc ud item product adds =
     (let resolved = map mk_addition
                       (List.map_filter (\<lambda>t. match_addition sc ud t adds) (additions item));
          totals = calculate_totals (to_decimal (price product)) resolved (quantity item)
      in \<lparr>c_pdv = pdv product, c_nome = nome_original product, c_quantidade = quantity item,
           c_preco_unitario = to_decimal (price product), adicionais = resolved,
           observacoes = build_observacoes item,
           preco_total_unitario = fst totals, preco_total = snd totals\<rparr>)"

text \<open>
  The bounds that the schema of a cart item puts on a line: \<^verbatim>\<open>quantidade\<close> between 1 and 50
  and \<^verbatim>\<open>observacoes\<close> of at most 500 characters.
\<close>

definition within_cart_schema :: "ParsedItem \<Rightarrow> bool" where
  "within_cart_schema item =
     (1 \<le> quantity item \<and> quantity item \<le> 50 \<and> length (build_observacoes item) \<le> 500)"

text \<open>
  The value of \<^verbatim>\<open>max(0.1, 1.0 - (0.2 * count))\<close> in \<^verbatim>\<open>float\<close> arithmetic, as a function of the
  count.
\<close>

definition confidence_of_count :: "nat \<Rightarrow> rat" where
  "confidence_of_count count =
     max (round64 (1 / 10))
         (round64 (1 - round64 (round64 (2 / 10) * round64 (of_nat count))))"

text \<open>An addition of a cart line that comes from an addition row of the line's product.\<close>

definition addition_from_menu :: "MenuEntry list \<Rightarrow> CartItem \<Rightarrow> CartItemAddition \<Rightarrow> bool" where
  "addition_from_menu menu line a =
     (\<exists>e \<in> set menu. item_type e = ''addition'' \<and> parent_pdv e = Some (c_pdv line)
        \<and> a_pdv a = pdv e \<and> a_nome a = clean_addition_name (nome_original e)
        \<and> a_preco_unitario a = to_decimal (price e))"

text \<open>
  The rewriting of one removal in \<^verbatim>\<open>_resolve_item\<close>, and its test for \<^verbatim>\<open>careca\<close> in the
  name.
\<close>

definition norm_removal :: "unidecode_table \<Rightarrow> string \<Rightarrow> string" where
  "norm_removal ud removal = re_sub True EVILHA_RE [RText ''ervilha''] (normalize_text ud removal)"

definition mentions_careca :: "unidecode_table \<Rightarrow> ParsedItem \<Rightarrow> bool" where
  "mentions_careca ud item =
     py_in ''careca'' (re_sub True X_GLUED_RE [RText ''x ''] (normalize_text ud (name item)))"

text \<open>
  The value of the variable \<^verbatim>\<open>base\<close> of \<^verbatim>\<open>_resolve_item\<close> when the additions and the removals
  are normalized: the name of the line after \<^verbatim>\<open>normalize_text\<close> and the rewrites of the
  function, in their order.
\<close>

definition rewritten_name :: "unidecode_table \<Rightarrow> ParsedItem \<Rightarrow> string" where
  "rewritten_name ud item =
     (let base = normalize_text ud (name item);
          base = re_sub True X_GLUED_RE [RText ''x ''] base;
          base = (if py_in ''careca'' base then py_strip (py_replace ''careca'' '' '' base)
                  else base);
          base = py_strip (re_sub True COMPLETO_RE [] base);
          base = re_sub True BURGER_RE [RText ''burguer''] base;
          base = re_sub True X_BURG_RE [RText ''x burguer''] base;
          base = re_sub True MIGON_RE [RText ''mignon''] base;
          base = re_sub True EVILHA_RE [RText ''ervilha''] base;
          base = re_sub True TBM_RE [] base;
          base = re_sub True TAMBEM_RE [] base;
          base = (if \<not> py_in ''coca cola'' base
                  then re_sub True COCA_RE [RText ''coca cola''] base else base);
          base = re_sub True BATA_FRITA_RE [RText ''batata frita''] base;
          base = (if py_in ''batata frita'' base
                  then (if py_in ''tradicional'' base then ''batata frita tradicional''
                        else ''batata frita'')
                  else base)
      in re_sub True LITROS_RE [RGroup 1, RText '' litros''] base)"

text \<open>A line for fried potatoes with an addition, as the parser returns it.\<close>

definition batata_item :: ParsedItem where
  "batata_item =
     \<lparr>raw = ''1 batata frita com bacon'', quantity = 1, name = ''batata frita'',
      additions = [''bacon''], removals = [], item_notes = [],
      is_additional_only = False, size_hint = None, match_text = ''batata frita''\<rparr>"

subsection \<open>Vocabulary for the context lines\<close>

text \<open>
  The words used to state what \<^verbatim>\<open>_is_context_line\<close> accepts, written without the regex
  engine. \<open>last_opt pv a\<close> is the character before the position reached after reading \<open>a\<close>
  (\<open>pv\<close> when \<open>a\<close> is empty); \<open>lit_match\<close> says that a text starts with a literal word;
  \<open>spans L s\<close> are the states reached from the state \<open>s\<close> by reading a prefix of the rest
  of the text that belongs to the language \<open>L\<close>.
\<close>

definition last_opt :: "char option \<Rightarrow> string \<Rightarrow> char option" where
  "last_opt pv a = (if a = [] then pv else Some (last a))"

definition lit_match :: "bool \<Rightarrow> string \<Rightarrow> string \<Rightarrow> bool" where
  "lit_match ic w xs = (length w \<le> length xs \<and> list_all2 (eqc ic) w (take (length w) xs))"

definition spans :: "string set \<Rightarrow> mstate \<Rightarrow> mstate set" where
  "spans L s =
     {(fst s + length m, last_opt (fst (snd s)) m, b, snd (snd (snd s))) | m b.
        fst (snd (snd s)) = m @ b \<and> m \<in> L}"

text \<open>
  \<open>spells kw m\<close>: the text \<open>m\<close> is the keyword \<open>kw\<close> up to the case of its letters.
  \<open>keyword_text m\<close>: \<open>m\<close> is one of the address, payment and small-talk keywords of
  \<^verbatim>\<open>_CONTEXT_RE\<close>, or \<^verbatim>\<open>tudo\<close> and \<^verbatim>\<open>bem\<close> separated by white space.
  \<open>whole_word a m b\<close>: in the text \<open>a @ m @ b\<close> the part \<open>m\<close> starts and ends at a word
  boundary. \<open>contains_keyword text\<close>: some part of the text is a keyword standing as a
  whole word. \<open>matches_greeting text\<close>: the whole text is a greeting (the pattern
  \<^verbatim>\<open>_GREETING_RE\<close> is anchored at both ends).
\<close>

definition spells :: "string \<Rightarrow> string \<Rightarrow> bool" where
  "spells kw m = list_all2 (eqc True) kw m"

definition keyword_text :: "string \<Rightarrow> bool" where
  "keyword_text m =
     ((\<exists>kw \<in> set (CONTEXT_KEYWORDS @ [''quantos'', ''deu'']). spells kw m)
      \<or> (\<exists>t ws b. m = t @ ws @ b \<and> spells ''tudo'' t \<and> ws \<noteq> [] \<and> list_all is_space ws
            \<and> spells ''bem'' b))"

definition whole_word :: "string \<Rightarrow> string \<Rightarrow> string \<Rightarrow> bool" where
  "whole_word a m b =
     (word_boundary (last_opt None a) (m @ b) \<and> word_boundary (last_opt None (a @ m)) b)"

definition contains_keyword :: "string \<Rightarrow> bool" where
  "contains_keyword text = (\<exists>a m b. text = a @ m @ b \<and> keyword_text m \<and> whole_word a m b)"

definition matches_greeting :: "string \<Rightarrow> bool" where
  "matches_greeting text = (re_match True GREETING_RE text \<noteq> None)"

section \<open>Properties\<close>

subsection \<open>Rounding\<close>

text \<open>
  Rounding to the nearest integer fixes the integers, is monotone and odd; \<open>ilog\<close> is the
  integer logarithm; rounding to binary64 is monotone and odd, and keeps the sign.
\<close>

lemma round_half_even_of_int: "round_half_even (of_int m) = m"
  by (simp add: round_half_even_def)

lemma round_half_even_mono: "x \<le> y \<Longrightarrow> round_half_even x \<le> round_half_even y"
proof -
  assume xy: "x \<le> y"
  then have fl: "\<lfloor>x\<rfloor> \<le> \<lfloor>y\<rfloor>" by (rule floor_mono)
  have ub: "round_half_even x \<le> \<lfloor>x\<rfloor> + 1" and lb: "\<lfloor>y\<rfloor> \<le> round_half_even y"
    by (simp_all add: round_half_even_def Let_def)
  show ?thesis
  proof (cases "\<lfloor>x\<rfloor> = \<lfloor>y\<rfloor>")
    case True
    with xy show ?thesis by (auto simp: round_half_even_def Let_def)
  next
    case False
    with fl have "\<lfloor>x\<rfloor> + 1 \<le> \<lfloor>y\<rfloor>" by simp
    with ub lb show ?thesis by simp
  qed
qed

lemma round_half_even_ge: "of_int m \<le> x \<Longrightarrow> m \<le> round_half_even x"
  using round_half_even_mono[of "of_int m" x] by (simp add: round_half_even_of_int)

lemma round_half_even_le: "x \<le> of_int m \<Longrightarrow> round_half_even x \<le> m"
  using round_half_even_mono[of x "of_int m"] by (simp add: round_half_even_of_int)

lemma round_half_even_near: "\<bar>of_int (round_half_even x) - x\<bar> \<le> 1 / 2"
proof -
  have "of_int \<lfloor>x\<rfloor> \<le> x" "x < of_int \<lfloor>x\<rfloor> + 1" by linarith+
  then show ?thesis by (auto simp: round_half_even_def Let_def abs_le_iff)
qed

lemma log_up_spec:
  "2 \<le> b \<Longrightarrow> 1 \<le> x \<Longrightarrow> of_nat b ^ log_up b x \<le> x \<and> x < of_nat b ^ Suc (log_up b x)"
proof (induction b x rule: log_up.induct)
  case (1 b x)
  have b: "(0::rat) < of_nat b" using 1(2) by simp
  show ?case
  proof (cases "of_nat b \<le> x")
    case True
    then have "1 \<le> x / of_nat b" using b by (simp add: field_simps)
    with 1 True have IH: "of_nat b ^ log_up b (x / of_nat b) \<le> x / of_nat b"
      "x / of_nat b < of_nat b ^ Suc (log_up b (x / of_nat b))" by auto
    have eq: "log_up b x = Suc (log_up b (x / of_nat b))"
      using True 1(2) by (subst log_up.simps) simp
    from IH b show ?thesis unfolding eq by (simp add: field_simps)
  next
    case False
    then have "log_up b x = 0" by (subst log_up.simps) simp
    with False 1(3) show ?thesis by simp
  qed
qed

lemma log_down_spec:
  "2 \<le> b \<Longrightarrow> 0 < x \<Longrightarrow> x < 1 \<Longrightarrow>
     1 \<le> x * of_nat b ^ log_down b x \<and> x * of_nat b ^ log_down b x < of_nat b"
proof (induction b x rule: log_down.induct)
  case (1 b x)
  have b: "(1::rat) < of_nat b" using 1(2) by simp
  have eq: "log_down b x = Suc (log_down b (x * of_nat b))"
    using 1(2-4) by (subst log_down.simps) simp
  show ?case
  proof (cases "x * of_nat b < 1")
    case True
    moreover have "0 < x * of_nat b" using 1(3) b by simp
    ultimately have "1 \<le> x * of_nat b * of_nat b ^ log_down b (x * of_nat b)
       \<and> x * of_nat b * of_nat b ^ log_down b (x * of_nat b) < of_nat b"
      using 1 by auto
    then show ?thesis unfolding eq by (simp add: mult.assoc)
  next
    case False
    then have "log_down b (x * of_nat b) = 0" by (subst log_down.simps) simp
    with False 1(3,4) b show ?thesis unfolding eq by simp
  qed
qed

lemma ilog_spec:
  assumes "2 \<le> b" "0 < x"
  shows "power_int (of_nat b) (ilog b x) \<le> x" and "x < power_int (of_nat b) (ilog b x + 1)"
proof -
  have b: "(0::rat) < of_nat b" using assms(1) by simp
  show "power_int (of_nat b) (ilog b x) \<le> x"
  proof (cases "1 \<le> x")
    case True
    with log_up_spec[OF assms(1) True] show ?thesis by (simp add: ilog_def)
  next
    case False
    with log_down_spec[OF assms] b show ?thesis
      by (simp add: ilog_def power_int_minus field_simps)
  qed
  show "x < power_int (of_nat b) (ilog b x + 1)"
  proof (cases "1 \<le> x")
    case True
    with log_up_spec[OF assms(1) True] show ?thesis
      by (simp add: ilog_def power_int_add_1 mult.commute)
  next
    case False
    then have x1: "x < 1" by simp
    have bk: "(0::rat) < of_nat b ^ log_down b x" using b by simp
    have "power_int (of_nat b :: rat) (- int (log_down b x) + 1)
            = power_int (of_nat b) (- int (log_down b x)) * power_int (of_nat b) 1"
      using b by (intro power_int_add) simp
    then have "power_int (of_nat b :: rat) (- int (log_down b x) + 1)
            = of_nat b / of_nat b ^ log_down b x"
      by (simp only: power_int_minus power_int_of_nat power_int_1_right inverse_eq_divide
            times_divide_eq_left mult_1)
    moreover have "x < of_nat b / of_nat b ^ log_down b x"
      using log_down_spec[OF assms x1] bk by (simp add: field_simps)
    ultimately show ?thesis using False by (simp add: ilog_def)
  qed
qed

lemma ilog_mono:
  assumes "2 \<le> b" "0 < x" "x \<le> y"
  shows "ilog b x \<le> ilog b y"
proof (rule ccontr)
  assume "\<not> ilog b x \<le> ilog b y"
  then have "ilog b y + 1 \<le> ilog b x" by simp
  moreover have "(1::rat) \<le> of_nat b" using assms(1) by simp
  ultimately have "power_int (of_nat b :: rat) (ilog b y + 1) \<le> power_int (of_nat b) (ilog b x)"
    by (rule power_int_increasing)
  moreover have "y < power_int (of_nat b) (ilog b y + 1)" using assms by (intro ilog_spec) auto
  moreover have "power_int (of_nat b) (ilog b x) \<le> x" using assms by (intro ilog_spec) auto
  ultimately show False using assms(3) by linarith
qed

lemma round64_nonpos: "x \<le> 0 \<Longrightarrow> round64 x \<le> 0"
proof (cases "x = 0")
  case True
  then show ?thesis by (simp add: round64_def)
next
  case False
  assume "x \<le> 0"
  define q :: rat where "q = power_int 2 (expo64 x - 52)"
  have q: "0 < q" by (simp add: q_def)
  have "x / q \<le> of_int 0" using \<open>x \<le> 0\<close> q by (simp add: divide_le_0_iff)
  then have "round_half_even (x / q) \<le> 0" by (rule round_half_even_le)
  then have "of_int (round_half_even (x / q)) * q \<le> 0"
    using q by (simp add: mult_le_0_iff)
  with False show ?thesis by (simp add: round64_def Let_def q_def)
qed

lemma round64_nonneg: "0 \<le> x \<Longrightarrow> 0 \<le> round64 x"
proof (cases "x = 0")
  case True
  then show ?thesis by (simp add: round64_def)
next
  case False
  assume "0 \<le> x"
  define q :: rat where "q = power_int 2 (expo64 x - 52)"
  have q: "0 < q" by (simp add: q_def)
  have "of_int 0 \<le> x / q" using \<open>0 \<le> x\<close> q by simp
  then have "0 \<le> round_half_even (x / q)" by (rule round_half_even_ge)
  then have "0 \<le> of_int (round_half_even (x / q)) * q"
    using q by simp
  with False show ?thesis by (simp add: round64_def Let_def q_def)
qed

lemma round64_pos:
  "0 < x \<Longrightarrow> round64 x = of_int (round_half_even (x / power_int 2 (expo64 x - 52)))
                            * power_int 2 (expo64 x - 52)"
  by (simp add: round64_def Let_def)

lemma below_next_power:
  assumes "0 < x"
  shows "x < power_int 2 (expo64 x + 1)"
proof -
  have "x < power_int 2 (ilog 2 x + 1)" using ilog_spec(2)[of 2 x] assms by simp
  also have "\<dots> \<le> power_int 2 (expo64 x + 1)"
    using assms by (intro power_int_increasing) (simp_all add: expo64_def)
  finally show ?thesis .
qed

lemma pow2_split: "power_int (2::rat) (e + 1) = 2 ^ 53 * power_int 2 (e - 52)"
proof -
  have "power_int (2::rat) (53 + (e - 52)) = power_int 2 53 * power_int 2 (e - 52)"
    by (rule power_int_add) simp
  moreover have "53 + (e - 52) = e + 1" by simp
  ultimately show ?thesis by simp
qed

lemma pow2_split': "power_int (2::rat) e = 2 ^ 52 * power_int 2 (e - 52)"
proof -
  have "power_int (2::rat) (52 + (e - 52)) = power_int 2 52 * power_int 2 (e - 52)"
    by (rule power_int_add) simp
  moreover have "52 + (e - 52) = e" by simp
  ultimately show ?thesis by simp
qed

lemma round64_le_next_power:
  assumes "0 < x"
  shows "round64 x \<le> power_int 2 (expo64 x + 1)"
proof -
  define q :: rat where "q = power_int 2 (expo64 x - 52)"
  have q: "0 < q" by (simp add: q_def)
  have "x < 2 ^ 53 * q" using below_next_power[OF assms] by (simp add: pow2_split q_def)
  then have "x / q \<le> of_int (2 ^ 53)" using q by (simp add: field_simps)
  then have "round_half_even (x / q) \<le> 2 ^ 53" by (rule round_half_even_le)
  then have "(of_int (round_half_even (x / q)) :: rat) \<le> of_int (2 ^ 53)"
    by (simp only: of_int_le_iff)
  then have "of_int (round_half_even (x / q)) * q \<le> 2 ^ 53 * q"
    using q by (simp add: mult_right_mono)
  then show ?thesis using assms by (simp add: round64_pos pow2_split q_def)
qed

lemma round64_ge_power:
  assumes "0 < x" and "power_int 2 (expo64 x) \<le> x"
  shows "power_int 2 (expo64 x) \<le> round64 x"
proof -
  define q :: rat where "q = power_int 2 (expo64 x - 52)"
  have q: "0 < q" by (simp add: q_def)
  have "2 ^ 52 * q \<le> x" using assms(2) by (subst (asm) pow2_split') (simp add: q_def)
  then have "of_int (2 ^ 52) \<le> x / q" using q by (simp add: field_simps)
  then have "2 ^ 52 \<le> round_half_even (x / q)" by (rule round_half_even_ge)
  then have "(of_int (2 ^ 52) :: rat) \<le> of_int (round_half_even (x / q))"
    by (simp only: of_int_le_iff)
  then have "2 ^ 52 * q \<le> of_int (round_half_even (x / q)) * q"
    using q by (simp add: mult_right_mono)
  then show ?thesis using assms(1) by (subst pow2_split') (simp add: round64_pos q_def)
qed

lemma round64_mono_pos:
  assumes "0 < x" "x \<le> y"
  shows "round64 x \<le> round64 y"
proof -
  have y: "0 < y" using assms by simp
  have le: "expo64 x \<le> expo64 y"
    using ilog_mono[of 2 x y] assms by (simp add: expo64_def)
  show ?thesis
  proof (cases "expo64 x = expo64 y")
    case True
    define q :: rat where "q = power_int 2 (expo64 y - 52)"
    have q: "0 < q" by (simp add: q_def)
    have "x / q \<le> y / q" using assms(2) q by (simp add: divide_right_mono)
    then have "round_half_even (x / q) \<le> round_half_even (y / q)" by (rule round_half_even_mono)
    then have "(of_int (round_half_even (x / q)) :: rat) \<le> of_int (round_half_even (y / q))"
      by (simp only: of_int_le_iff)
    then have "of_int (round_half_even (x / q)) * q \<le> of_int (round_half_even (y / q)) * q"
      using q by (simp add: mult_right_mono)
    then show ?thesis using assms(1) y True by (simp add: round64_pos q_def)
  next
    case False
    with le have lt: "expo64 x + 1 \<le> expo64 y" by simp
    then have "- 1022 < expo64 y" by (simp add: expo64_def)
    then have ey: "expo64 y = ilog 2 y" using y by (simp add: expo64_def max_def split: if_splits)
    have "power_int 2 (expo64 y) \<le> y" unfolding ey using ilog_spec(1)[of 2 y] y by simp
    from round64_ge_power[OF y this] have "power_int 2 (expo64 y) \<le> round64 y" .
    moreover have "power_int (2::rat) (expo64 x + 1) \<le> power_int 2 (expo64 y)"
      using lt by (intro power_int_increasing) simp_all
    moreover note round64_le_next_power[OF assms(1)]
    ultimately show ?thesis by linarith
  qed
qed

lemma round_half_even_minus: "round_half_even (- x) = - round_half_even x"
proof (cases "x = of_int \<lfloor>x\<rfloor>")
  case True
  then obtain m where "x = of_int m" ..
  then have "- x = of_int (- m)" by simp
  then show ?thesis unfolding \<open>x = of_int m\<close> by (simp only: round_half_even_of_int)
next
  case False
  then have lt: "of_int \<lfloor>x\<rfloor> < x" "x < of_int \<lfloor>x\<rfloor> + 1" by linarith+
  then have fl: "\<lfloor>- x\<rfloor> = - \<lfloor>x\<rfloor> - 1" by (intro floor_unique) auto
  show ?thesis using lt
    by (auto simp: round_half_even_def Let_def fl)
qed

lemma round64_minus: "round64 (- x) = - round64 x"
  by (simp add: round64_def expo64_def Let_def round_half_even_minus)

lemma round64_mono: "x \<le> y \<Longrightarrow> round64 x \<le> round64 y"
proof -
  assume xy: "x \<le> y"
  consider "0 < x" | "x \<le> 0" "0 \<le> y" | "y < 0" by linarith
  then show ?thesis
  proof cases
    case 1
    then show ?thesis using xy by (rule round64_mono_pos)
  next
    case 2
    then show ?thesis using round64_nonpos[of x] round64_nonneg[of y] by simp
  next
    case 3
    then have "0 < - y" "- y \<le> - x" using xy by simp_all
    then have "round64 (- y) \<le> round64 (- x)" by (rule round64_mono_pos)
    then show ?thesis by (simp add: round64_minus)
  qed
qed

lemma round64_tenth: "round64 (1 / 10) = 3602879701896397 / 2 ^ 55" by code_simp
lemma round64_fifth: "round64 (1 / 5) = 3602879701896397 / 2 ^ 54" by code_simp
lemma round64_two_fifths: "round64 (2 / 5) = 3602879701896397 / 2 ^ 53" by code_simp
lemma round64_three_fifths: "round64 (3 / 5) = 5404319552844595 / 2 ^ 53" by code_simp
lemma round64_four_fifths: "round64 (4 / 5) = 3602879701896397 / 2 ^ 52" by code_simp
lemma round64_one: "round64 1 = 1" by code_simp
lemma round64_five: "round64 5 = 5" by code_simp

subsection \<open>The matcher\<close>

lemma find_matches_length: "length (find_matches sc ud q cs t limit) \<le> limit"
proof -
  have "length (filter P (take limit xs)) \<le> limit" for P and xs :: "(string \<times> rat \<times> nat) list"
    by (rule order_trans[OF length_filter_le]) simp
  then show ?thesis
    by (simp add: find_matches_def process_extract_def Let_def)
qed

lemma suggest_products_length: "length (suggest_products sc ud q ps) \<le> 5"
  by (simp add: suggest_products_def find_matches_length)

lemma suggest_additions_length: "length (suggest_additions sc ud q as) \<le> 5"
  by (simp add: suggest_additions_def find_matches_length)

lemma pendency_for_additional_only_Inr:
  "pendency_for_additional_only sc ud item products =
     Inr \<lparr>motivo = ADICIONAL_NAO_ENCONTRADO, texto_original = raw item,
          sugestoes = suggest_products sc ud (name item) products,
          dados_extras = [(''quantidade'', EInt (quantity item)), (''adicional'', EStr (name item))]\<rparr>"
  by (simp add: pendency_for_additional_only_def new_CartPendency_def suggest_products_length)

lemma pendency_for_missing_product_Inr:
  "pendency_for_missing_product sc ud item products =
     Inr \<lparr>motivo = PRODUTO_NAO_ENCONTRADO, texto_original = raw item,
          sugestoes = suggest_products sc ud (if match_text item \<noteq> [] then match_text item else name item) products,
          dados_extras = [(''quantidade'', EInt (quantity item))]\<rparr>"
  by (simp add: pendency_for_missing_product_def new_CartPendency_def suggest_products_length)

text \<open>
  The confidence depends on the number of pendencies only. Its values: 1 for no pendency,
  then the \<^verbatim>\<open>float\<close> values that Python prints as \<^verbatim>\<open>0.8\<close>, \<^verbatim>\<open>0.6\<close>, \<^verbatim>\<open>0.3999999999999999\<close> and
  \<^verbatim>\<open>0.19999999999999996\<close>, and \<^verbatim>\<open>0.1\<close> from five pendencies on.
\<close>

lemma compute_confidence_count: "compute_confidence ps = confidence_of_count (length ps)"
  by (simp add: compute_confidence_def confidence_of_count_def)

lemma confidence_0: "confidence_of_count 0 = 1" by code_simp
lemma confidence_1: "confidence_of_count (Suc 0) = 3602879701896397 / 2 ^ 52" by code_simp
lemma confidence_2: "confidence_of_count 2 = 5404319552844595 / 2 ^ 53" by code_simp
lemma confidence_3: "confidence_of_count 3 = 3602879701896396 / 2 ^ 53" by code_simp
lemma confidence_4: "confidence_of_count 4 = 3602879701896396 / 2 ^ 54" by code_simp

lemma confidence_ge_5:
  assumes "5 \<le> n"
  shows "confidence_of_count n = 3602879701896397 / 2 ^ 55"
proof -
  have "(5::rat) \<le> of_nat n" using assms by (metis of_nat_le_iff of_nat_numeral)
  then have "round64 5 \<le> round64 (of_nat n)" by (rule round64_mono)
  then have n5: "5 \<le> round64 (of_nat n)" by (simp only: round64_five)
  have "(1::rat) \<le> round64 (2 / 10) * 5" by (simp add: round64_fifth)
  also have "\<dots> \<le> round64 (2 / 10) * round64 (of_nat n)"
    using n5 by (intro mult_left_mono) (simp_all add: round64_fifth)
  finally have "round64 1 \<le> round64 (round64 (2 / 10) * round64 (of_nat n))"
    by (rule round64_mono)
  then have "1 - round64 (round64 (2 / 10) * round64 (of_nat n)) \<le> 0"
    by (simp add: round64_one)
  then have "round64 (1 - round64 (round64 (2 / 10) * round64 (of_nat n))) \<le> 0"
    by (rule round64_nonpos)
  then show ?thesis by (simp add: confidence_of_count_def round64_tenth max_def)
qed

lemma confidence_cases:
  "confidence_of_count n = (if n = 0 then 1 else if n = 1 then 3602879701896397 / 2 ^ 52
             else if n = 2 then 5404319552844595 / 2 ^ 53
             else if n = 3 then 3602879701896396 / 2 ^ 53
             else if n = 4 then 3602879701896396 / 2 ^ 54
             else 3602879701896397 / 2 ^ 55)"
proof -
  consider "n = 0" | "n = 1" | "n = 2" | "n = 3" | "n = 4" | "5 \<le> n" by linarith
  then show ?thesis
  proof cases
    case 6
    then show ?thesis using confidence_ge_5[OF 6] by simp
  qed (simp_all add: confidence_0 confidence_1 confidence_2 confidence_3 confidence_4)
qed

lemma confidence_bounds: "1 / 10 \<le> confidence_of_count n \<and> confidence_of_count n \<le> 1"
  by (simp add: confidence_cases)

lemma confidence_mono: "n \<le> m \<Longrightarrow> confidence_of_count m \<le> confidence_of_count n"
  by (simp add: confidence_cases)

lemma confidence_near: "\<bar>confidence_of_count n - max (1 / 10) (1 - 2 / 10 * of_nat n)\<bar> < 1 / 2 ^ 53"
proof -
  consider "n = 0" | "n = 1" | "n = 2" | "n = 3" | "n = 4" | "5 \<le> n" by linarith
  then show ?thesis
  proof cases
    case 6
    then have "(5::rat) \<le> of_nat n" by (metis of_nat_le_iff of_nat_numeral)
    then have "max (1 / 10) (1 - 2 / 10 * of_nat n) = (1 / 10 :: rat)" by (simp add: max_def)
    then show ?thesis using 6 by (simp add: confidence_cases)
  qed (simp_all add: confidence_cases)
qed

lemma confidence_nearest:
  "confidence_of_count n = (if n = 3 then round64 (4 / 10) - 1 / 2 ^ 53
             else if n = 4 then round64 (2 / 10) - 1 / 2 ^ 54
             else round64 (max (1 / 10) (1 - 2 / 10 * of_nat n)))"
proof -
  consider "n = 0" | "n = 1" | "n = 2" | "n = 3" | "n = 4" | "5 \<le> n" by linarith
  then show ?thesis
  proof cases
    case 6
    then have "(5::rat) \<le> of_nat n" by (metis of_nat_le_iff of_nat_numeral)
    then have "max (1 / 10) (1 - 2 / 10 * of_nat n) = (1 / 10 :: rat)" by (simp add: max_def)
    then show ?thesis using 6 by (simp add: confidence_cases round64_tenth)
  next
    case 2
    have "max (1 / 10) (1 - 2 / 10 * of_nat 1) = (4 / 5 :: rat)" by simp
    then show ?thesis using 2 by (simp only: confidence_cases round64_four_fifths) simp
  next
    case 3
    have "max (1 / 10) (1 - 2 / 10 * of_nat 2) = (3 / 5 :: rat)" by simp
    then show ?thesis using 3 by (simp only: confidence_cases round64_three_fifths) simp
  qed (simp_all add: confidence_cases round64_one round64_two_fifths round64_fifth)
qed

lemma compute_confidence_bounds: "1 / 10 \<le> compute_confidence ps \<and> compute_confidence ps \<le> 1"
  by (simp only: compute_confidence_count confidence_bounds)

lemma compute_confidence_mono:
  "length ps \<le> length qs \<Longrightarrow> compute_confidence qs \<le> compute_confidence ps"
  by (simp only: compute_confidence_count confidence_mono)

lemma match_items_confidence:
  "match_items sc ud parsed menu raw_txt = Inr r \<Longrightarrow> confidence r = compute_confidence (pendencies r)"
  by (auto simp: match_items_def Let_def new_InterpretedOrder_def split: prod.splits sum.splits if_splits)

text \<open>
  Claim C1, as amended. Whenever \<^verbatim>\<open>match_items\<close> returns a result, its confidence is the
  \<^verbatim>\<open>float\<close> value of \<^verbatim>\<open>max(0.1, 1.0 - (0.2 * n))\<close> for the number \<open>n\<close> of pendencies in that
  same result, whatever their reasons. That value is the \<^verbatim>\<open>float\<close> nearest to the exact
  \<open>max 0.1 (1 - 0.2 * n)\<close>, except at 3 and 4 pendencies, where it lies \<open>2 ^ - 53\<close> below the
  \<^verbatim>\<open>float\<close> \<^verbatim>\<open>0.4\<close> and \<open>2 ^ - 54\<close> below the \<^verbatim>\<open>float\<close> \<^verbatim>\<open>0.2\<close>; it is always less than
  \<open>2 ^ - 53\<close> away from the exact value. It lies between 0.1 and 1, and a result with at
  least as many pendencies never has a higher confidence.
\<close>

theorem matcher_confidence:
  "match_items sc ud parsed menu raw_txt = Inr r \<Longrightarrow>
     confidence r
       = max (round64 (1 / 10))
           (round64 (1 - round64 (round64 (2 / 10) * round64 (of_nat (length (pendencies r))))))
     \<and> confidence r
         = (if length (pendencies r) = 3 then round64 (4 / 10) - 1 / 2 ^ 53
            else if length (pendencies r) = 4 then round64 (2 / 10) - 1 / 2 ^ 54
            else round64 (max (1 / 10) (1 - 2 / 10 * of_nat (length (pendencies r)))))
     \<and> \<bar>confidence r - max (1 / 10) (1 - 2 / 10 * of_nat (length (pendencies r)))\<bar> < 1 / 2 ^ 53
     \<and> 1 / 10 \<le> confidence r \<and> confidence r \<le> 1
     \<and> (\<forall>sc' ud' parsed' menu' raw' r'.
           match_items sc' ud' parsed' menu' raw' = Inr r'
           \<and> length (pendencies r) \<le> length (pendencies r')
           \<longrightarrow> confidence r' \<le> confidence r)"
proof -
  assume run: "match_items sc ud parsed menu raw_txt = Inr r"
  have c: "confidence r = confidence_of_count (length (pendencies r))"
    using match_items_confidence[OF run] by (simp only: compute_confidence_count)
  have "confidence r
       = max (round64 (1 / 10))
           (round64 (1 - round64 (round64 (2 / 10) * round64 (of_nat (length (pendencies r))))))"
    unfolding c by (simp only: confidence_of_count_def)
  moreover have "confidence r
         = (if length (pendencies r) = 3 then round64 (4 / 10) - 1 / 2 ^ 53
            else if length (pendencies r) = 4 then round64 (2 / 10) - 1 / 2 ^ 54
            else round64 (max (1 / 10) (1 - 2 / 10 * of_nat (length (pendencies r)))))"
    unfolding c by (rule confidence_nearest)
  moreover have
    "\<bar>confidence r - max (1 / 10) (1 - 2 / 10 * of_nat (length (pendencies r)))\<bar> < 1 / 2 ^ 53"
    unfolding c by (rule confidence_near)
  moreover have "1 / 10 \<le> confidence r \<and> confidence r \<le> 1"
    unfolding c by (rule confidence_bounds)
  moreover have "confidence r' \<le> confidence r"
    if "match_items sc' ud' parsed' menu' raw' = Inr r'"
      and "length (pendencies r) \<le> length (pendencies r')"
    for sc' ud' parsed' menu' raw' r'
    using match_items_confidence[OF that(1)] compute_confidence_mono[OF that(2)]
    by (simp only: c compute_confidence_count)
  ultimately show ?thesis by blast
qed

lemma match_additions_loop_Inr:
  "match_additions_loop sc ud adds product texts results pends = Inr (res', pends') \<Longrightarrow>
     res' = results @ map mk_addition (List.map_filter (\<lambda>t. match_addition sc ud t adds) texts)
     \<and> pends' = pends @ map (mk_addition_pendency sc ud adds product)
                         (filter (\<lambda>t. match_addition sc ud t adds = None) texts)"
proof (induction texts arbitrary: results pends)
  case Nil
  then show ?case by simp
next
  case (Cons t texts)
  show ?case
  proof (cases "match_addition sc ud t adds")
    case None
    with Cons.prems have
      "match_additions_loop sc ud adds product texts results
         (pends @ [mk_addition_pendency sc ud adds product t]) = Inr (res', pends')"
      by (simp add: new_CartPendency_def suggest_additions_length mk_addition_pendency_def)
    from Cons.IH[OF this] None show ?thesis
      by simp
  next
    case (Some e)
    with Cons.prems have
      "match_additions_loop sc ud adds product texts (results @ [mk_addition e]) pends
         = Inr (res', pends')"
      by (simp add: new_CartItemAddition_def mk_addition_def split: if_splits)
    from Cons.IH[OF this] Some show ?thesis
      by simp
  qed
qed

lemma match_additions_Inr:
  "match_additions sc ud item adds pends product = Inr (res', pends') \<Longrightarrow>
     res' = map mk_addition (List.map_filter (\<lambda>t. match_addition sc ud t adds) (additions item))
     \<and> pends' = pends @ map (mk_addition_pendency sc ud adds product)
                         (filter (\<lambda>t. match_addition sc ud t adds = None) (additions item))"
  by (auto simp: match_additions_def dest: match_additions_loop_Inr split: if_splits)

lemma match_addition_mem: "match_addition sc ud t adds = Some e \<Longrightarrow> e \<in> set adds"
  by (auto simp: match_addition_def or_else_def Let_def find_Some_iff
           split: if_splits option.splits)

lemma match_items_loop_append:
  "match_items_loop sc ud products abp (xs @ ys) its ps =
     (case match_items_loop sc ud products abp xs its ps of
        Inl e \<Rightarrow> Inl e
      | Inr (its', ps') \<Rightarrow> match_items_loop sc ud products abp ys its' ps')"
  by (induction xs arbitrary: its ps) (auto split: sum.splits prod.splits option.splits)

lemma match_items_loop_matched:
  assumes "\<not> is_additional_only item"
    and "match_product sc ud item products = Some product"
    and "match_items_loop sc ud products abp (item # rest) its ps = Inr (its', ps')"
  shows "match_items_loop sc ud products abp rest
           (its @ [mk_cart_item sc ud item product (abp (Some (pdv product)))])
           (ps @ map (mk_addition_pendency sc ud (abp (Some (pdv product))) product)
                   (filter (\<lambda>t. match_addition sc ud t (abp (Some (pdv product))) = None)
                      (additions item)))
         = Inr (its', ps')"
proof -
  let ?adds = "abp (Some (pdv product))"
  from assms obtain res pends1 where
    ma: "match_additions sc ud item ?adds ps product = Inr (res, pends1)"
    by (auto split: sum.splits)
  from assms ma obtain ci where
    ci: "new_CartItem (pdv product) (nome_original product) (quantity item)
           (to_decimal (price product)) res (build_observacoes item) = Inr ci"
    and rest: "match_items_loop sc ud products abp rest (its @ [ci]) pends1 = Inr (its', ps')"
    by (auto split: sum.splits)
  from match_additions_Inr[OF ma] have
    res: "res = map mk_addition (List.map_filter (\<lambda>t. match_addition sc ud t ?adds) (additions item))"
    and p1: "pends1 = ps @ map (mk_addition_pendency sc ud ?adds product)
                         (filter (\<lambda>t. match_addition sc ud t ?adds = None) (additions item))"
    by simp_all
  from ci res have "ci = mk_cart_item sc ud item product ?adds"
    by (auto simp: new_CartItem_def mk_cart_item_def Let_def split: if_splits)
  with rest p1 show ?thesis by simp
qed

lemma match_items_loop_grows:
  "match_items_loop sc ud products abp xs its ps = Inr (its', ps') \<Longrightarrow>
     \<exists>dits dps. its' = its @ dits \<and> ps' = ps @ dps"
proof (induction xs arbitrary: its ps)
  case Nil
  then show ?case by simp
next
  case (Cons item xs)
  show ?case
  proof (cases "is_additional_only item")
    case True
    with Cons.prems have "match_items_loop sc ud products abp xs its
        (ps @ [projr (pendency_for_additional_only sc ud item products)]) = Inr (its', ps')"
      by (simp add: pendency_for_additional_only_Inr)
    from Cons.IH[OF this] show ?thesis by auto
  next
    case False
    show ?thesis
    proof (cases "match_product sc ud item products")
      case None
      with False Cons.prems have "match_items_loop sc ud products abp xs its
          (ps @ [projr (pendency_for_missing_product sc ud item products)]) = Inr (its', ps')"
        by (simp add: pendency_for_missing_product_Inr)
      from Cons.IH[OF this] show ?thesis by auto
    next
      case (Some product)
      from Cons.IH[OF match_items_loop_matched[OF False Some Cons.prems]]
      show ?thesis by auto
    qed
  qed
qed

lemma match_items_Inr:
  "match_items sc ud parsed menu raw_txt = Inr r \<longleftrightarrow>
     (\<exists>its ps. match_items_loop sc ud (fst (build_menu_index menu)) (snd (build_menu_index menu))
                  parsed [] [] = Inr (its, ps)
              \<and> r = \<lparr>items = its, pendencies = ps, raw_text = raw_txt,
                      confidence = compute_confidence ps\<rparr>)"
proof -
  have "0 \<le> compute_confidence ps \<and> compute_confidence ps \<le> 1" for ps
    using compute_confidence_bounds[of ps] by simp
  then show ?thesis
    by (auto simp: match_items_def Let_def new_InterpretedOrder_def split: prod.splits sum.splits)
qed

text \<open>
  The shape of a result: a line that is not additive-only and whose base product is
  matched contributes its cart line, after the lines of the items before it, and one
  pendency for each addition that \<^verbatim>\<open>_match_addition\<close> does not resolve.
\<close>

lemma matched_line_shape:
  assumes run: "match_items sc ud (pre @ item # post) menu raw_txt = Inr r"
    and base: "\<not> is_additional_only item"
    and prod: "match_product sc ud item (fst (build_menu_index menu)) = Some product"
  shows "\<exists>r1 its2 ps2.
           match_items sc ud pre menu raw_txt = Inr r1
           \<and> items r = items r1
                 @ mk_cart_item sc ud item product (snd (build_menu_index menu) (Some (pdv product)))
                 # its2
           \<and> adicionais (mk_cart_item sc ud item product
                            (snd (build_menu_index menu) (Some (pdv product))))
               = map mk_addition
                   (List.map_filter
                      (\<lambda>t. match_addition sc ud t (snd (build_menu_index menu) (Some (pdv product))))
                      (additions item))
           \<and> pendencies r = pendencies r1
                 @ map (mk_addition_pendency sc ud
                          (snd (build_menu_index menu) (Some (pdv product))) product)
                     (filter (\<lambda>t. match_addition sc ud t
                                     (snd (build_menu_index menu) (Some (pdv product))) = None)
                        (additions item))
                 @ ps2"
proof -
  let ?products = "fst (build_menu_index menu)"
  let ?abp = "snd (build_menu_index menu)"
  let ?adds = "?abp (Some (pdv product))"
  from run obtain its ps where
    loop: "match_items_loop sc ud ?products ?abp (pre @ item # post) [] [] = Inr (its, ps)"
    and r: "items r = its" "pendencies r = ps"
    by (auto simp: match_items_Inr)
  from loop obtain its1 ps1 where
    l1: "match_items_loop sc ud ?products ?abp pre [] [] = Inr (its1, ps1)"
    and l2: "match_items_loop sc ud ?products ?abp (item # post) its1 ps1 = Inr (its, ps)"
    by (auto simp: match_items_loop_append split: sum.splits)
  from match_items_loop_grows[OF match_items_loop_matched[OF base prod l2]]
  obtain dits dps where
    "its = (its1 @ [mk_cart_item sc ud item product ?adds]) @ dits"
    "ps = (ps1 @ map (mk_addition_pendency sc ud ?adds product)
                   (filter (\<lambda>t. match_addition sc ud t ?adds = None) (additions item))) @ dps"
    by blast
  moreover from l1 have "match_items sc ud pre menu raw_txt =
      Inr \<lparr>items = its1, pendencies = ps1, raw_text = raw_txt, confidence = compute_confidence ps1\<rparr>"
    by (simp add: match_items_Inr)
  ultimately show ?thesis using r
    by (simp add: mk_cart_item_def Let_def)
qed

text \<open>
  A matched entry is a row of the list it was looked up in, so its price is a price of the
  menu.
\<close>

lemma find_mem: "find P xs = Some x \<Longrightarrow> x \<in> set xs"
  by (auto simp: find_Some_iff)

lemma best_match_mem: "best_match sc ud q ps = Some p \<Longrightarrow> p \<in> set ps"
  by (auto simp: best_match_def Let_def split: if_splits option.splits dest: find_mem)

lemma filter_by_size_hint_mem: "p \<in> set (filter_by_size_hint ud ps h) \<Longrightarrow> p \<in> set ps"
  by (auto simp: filter_by_size_hint_def Let_def split: if_splits)

lemma filter_plain_batata_mem: "p \<in> set (filter_plain_batata ud ps) \<Longrightarrow> p \<in> set ps"
  by (auto simp: filter_plain_batata_def Let_def split: if_splits)

lemma match_batata_topping_mem:
  "match_batata_topping sc ud item q qn ps = Some p \<Longrightarrow> p \<in> set ps"
  by (auto simp: match_batata_topping_def Let_def split: if_splits
           dest!: best_match_mem filter_by_size_hint_mem)

lemma match_suco_morango_mem: "match_suco_morango sc ud q qn ps = Some p \<Longrightarrow> p \<in> set ps"
  by (auto simp: match_suco_morango_def Let_def split: if_splits dest!: best_match_mem)

lemma match_batata_tradicional_mem:
  "match_batata_tradicional sc ud item q qn ps = Some p \<Longrightarrow> p \<in> set ps"
  by (auto simp: match_batata_tradicional_def Let_def split: if_splits
           dest!: best_match_mem filter_by_size_hint_mem filter_plain_batata_mem)

lemma match_batata_size_mem:
  "match_batata_size sc ud item q qn ps = Some p \<Longrightarrow> p \<in> set ps"
  by (auto simp: match_batata_size_def split: if_splits
           dest!: best_match_mem filter_by_size_hint_mem)

lemma or_else_Some: "or_else a b = Some x \<Longrightarrow> a = Some x \<or> b = Some x"
  by (auto simp: or_else_def split: option.splits)

lemma match_product_mem:
  assumes "match_product sc ud item ps = Some p"
  shows "p \<in> set ps"
proof -
  let ?q = "if match_text item \<noteq> [] then match_text item else name item"
  let ?exact = "filter (\<lambda>p. fingerprint p = make_fingerprint ud ?q) ps"
  show ?thesis
  proof (cases "\<exists>e. ?exact = [e]")
    case True
    then obtain e where e: "?exact = [e]" ..
    then have "e \<in> set ?exact" by simp
    then have "e \<in> set ps" by simp
    moreover from assms e have "p = e" by (simp add: match_product_def Let_def)
    ultimately show ?thesis by simp
  next
    case False
    then have "(case ?exact of [p] \<Rightarrow> Some p | _ \<Rightarrow> x) = x" for x :: "MenuEntry option"
      by (auto split: list.splits)
    with assms have
      "or_else (match_batata_topping sc ud item ?q (normalize_text ud ?q) ps)
         (or_else (match_suco_morango sc ud ?q (normalize_text ud ?q) ps)
         (or_else (match_batata_tradicional sc ud item ?q (normalize_text ud ?q) ps)
         (or_else (match_batata_size sc ud item ?q (normalize_text ud ?q) ps)
            (best_match sc ud ?q ps)))) = Some p"
      by (simp add: match_product_def Let_def)
    then show ?thesis
      by (auto dest!: or_else_Some
               dest: match_batata_topping_mem match_suco_morango_mem
                     match_batata_tradicional_mem match_batata_size_mem best_match_mem)
  qed
qed

lemma build_menu_index_products: "set (fst (build_menu_index menu)) \<subseteq> set menu"
  by (auto simp: build_menu_index_def)

lemma build_menu_index_additions_subset: "set (snd (build_menu_index menu) k) \<subseteq> set menu"
  by (auto simp: build_menu_index_def)

text \<open>
  The loops return a result when the prices are not negative and the matched lines are
  within the bounds of the cart schema.
\<close>

lemma match_additions_loop_total:
  assumes "\<forall>e \<in> set adds. 0 \<le> to_decimal (price e)"
  shows "match_additions_loop sc ud adds product texts results pends =
           Inr (results @ map mk_addition
                            (List.map_filter (\<lambda>t. match_addition sc ud t adds) texts),
                pends @ map (mk_addition_pendency sc ud adds product)
                          (filter (\<lambda>t. match_addition sc ud t adds = None) texts))"
proof (induction texts arbitrary: results pends)
  case Nil
  show ?case by (simp add: List.map_filter_simps)
next
  case (Cons t texts)
  show ?case
  proof (cases "match_addition sc ud t adds")
    case None
    then show ?thesis
      by (simp add: Cons.IH new_CartPendency_def suggest_additions_length
            mk_addition_pendency_def List.map_filter_simps)
  next
    case (Some e)
    then have "0 \<le> to_decimal (price e)" using assms match_addition_mem by blast
    with Some show ?thesis
      by (simp add: Cons.IH new_CartItemAddition_def mk_addition_def List.map_filter_simps)
  qed
qed

lemma match_additions_total:
  assumes "\<forall>e \<in> set adds. 0 \<le> to_decimal (price e)"
  shows "match_additions sc ud item adds pends product =
           Inr (map mk_addition
                  (List.map_filter (\<lambda>t. match_addition sc ud t adds) (additions item)),
                pends @ map (mk_addition_pendency sc ud adds product)
                          (filter (\<lambda>t. match_addition sc ud t adds = None) (additions item)))"
  using match_additions_loop_total[OF assms, of sc ud product "additions item" "[]" pends]
  by (simp add: match_additions_def List.map_filter_simps)

lemma match_items_loop_total:
  assumes prices: "\<forall>e \<in> set menu. 0 \<le> to_decimal (price e)"
    and lines: "\<forall>l \<in> set xs.
                  \<not> is_additional_only l
                  \<and> match_product sc ud l (fst (build_menu_index menu)) \<noteq> None
                  \<longrightarrow> within_cart_schema l"
  shows "\<exists>its' ps'. match_items_loop sc ud (fst (build_menu_index menu))
                      (snd (build_menu_index menu)) xs its ps = Inr (its', ps')"
  using lines
proof (induction xs arbitrary: its ps)
  case Nil
  show ?case by simp
next
  case (Cons item xs)
  let ?products = "fst (build_menu_index menu)"
  let ?abp = "snd (build_menu_index menu)"
  from Cons.prems have rest: "\<forall>l \<in> set xs.
      \<not> is_additional_only l \<and> match_product sc ud l ?products \<noteq> None \<longrightarrow> within_cart_schema l"
    by simp
  show ?case
  proof (cases "is_additional_only item")
    case True
    then show ?thesis using Cons.IH[OF rest]
      by (simp add: pendency_for_additional_only_Inr)
  next
    case False
    show ?thesis
    proof (cases "match_product sc ud item ?products")
      case None
      with False show ?thesis using Cons.IH[OF rest]
        by (simp add: pendency_for_missing_product_Inr)
    next
      case (Some product)
      let ?adds = "?abp (Some (pdv product))"
      from Some have "product \<in> set menu"
        using match_product_mem build_menu_index_products by blast
      with prices have pp: "0 \<le> to_decimal (price product)" by simp
      from prices have ap: "\<forall>e \<in> set ?adds. 0 \<le> to_decimal (price e)"
        using build_menu_index_additions_subset by blast
      from False Some Cons.prems have ok: "within_cart_schema item" by simp
      from False Some pp ok show ?thesis using Cons.IH[OF rest]
        by (simp add: match_additions_total[OF ap] new_CartItem_def within_cart_schema_def
              Let_def)
    qed
  qed
qed

text \<open>
  Claim C2, as amended. Take a menu without negative prices and a list of lines in which
  every line that is not additive-only and has a matched base product is within the
  bounds of the cart schema (quantity from 1 to 50, notes of at most 500 characters).
  Then \<^verbatim>\<open>match_items\<close> returns a result, and in it a line that is not additive-only and
  whose base product is matched contributes its cart line, after the lines of the items
  before it; the cart line holds exactly the additions that \<^verbatim>\<open>_match_addition\<close> resolves,
  in order, and each addition it does not resolve contributes one
  \<^verbatim>\<open>adicional_nao_encontrado\<close> pendency, in order, after the pendencies of the items before
  it. Unresolved additions never end the call and never remove the cart line.
\<close>

theorem matched_line_kept:
  assumes prices: "\<forall>e \<in> set menu. 0 \<le> to_decimal (price e)"
    and lines: "\<forall>l \<in> set (pre @ item # post).
                  \<not> is_additional_only l
                  \<and> match_product sc ud l (fst (build_menu_index menu)) \<noteq> None
                  \<longrightarrow> within_cart_schema l"
    and base: "\<not> is_additional_only item"
    and prod: "match_product sc ud item (fst (build_menu_index menu)) = Some product"
  shows "\<exists>r r1 its2 ps2.
           match_items sc ud (pre @ item # post) menu raw_txt = Inr r
           \<and> match_items sc ud pre menu raw_txt = Inr r1
           \<and> items r = items r1
                 @ mk_cart_item sc ud item product (snd (build_menu_index menu) (Some (pdv product)))
                 # its2
           \<and> adicionais (mk_cart_item sc ud item product
                            (snd (build_menu_index menu) (Some (pdv product))))
               = map mk_addition
                   (List.map_filter
                      (\<lambda>t. match_addition sc ud t (snd (build_menu_index menu) (Some (pdv product))))
                      (additions item))
           \<and> pendencies r = pendencies r1
                 @ map (mk_addition_pendency sc ud
                          (snd (build_menu_index menu) (Some (pdv product))) product)
                     (filter (\<lambda>t. match_addition sc ud t
                                     (snd (build_menu_index menu) (Some (pdv product))) = None)
                        (additions item))
                 @ ps2"
proof -
  from match_items_loop_total[OF prices lines, of "[]" "[]"] obtain its ps where
    "match_items_loop sc ud (fst (build_menu_index menu)) (snd (build_menu_index menu))
       (pre @ item # post) [] [] = Inr (its, ps)"
    by blast
  then have "match_items sc ud (pre @ item # post) menu raw_txt =
      Inr \<lparr>items = its, pendencies = ps, raw_text = raw_txt, confidence = compute_confidence ps\<rparr>"
    by (simp add: match_items_Inr)
  from this matched_line_shape[OF this base prod] show ?thesis by blast
qed

lemma build_menu_index_additions:
  "e \<in> set (snd (build_menu_index menu) k) \<longleftrightarrow>
     e \<in> set menu \<and> item_type e = ''addition'' \<and> parent_pdv e = k"
  by (auto simp: build_menu_index_def)

lemma mk_cart_item_additions:
  assumes "a \<in> set (adicionais (mk_cart_item sc ud item product (snd (build_menu_index menu) (Some (pdv product)))))"
  shows "a_quantidade a = 1
         \<and> addition_from_menu menu (mk_cart_item sc ud item product (snd (build_menu_index menu) (Some (pdv product)))) a"
proof -
  let ?adds = "snd (build_menu_index menu) (Some (pdv product))"
  from assms obtain t e where m: "match_addition sc ud t ?adds = Some e" and a: "a = mk_addition e"
    by (auto simp: mk_cart_item_def Let_def List.map_filter_def)
  from m have "e \<in> set ?adds" by (rule match_addition_mem)
  then have "e \<in> set menu \<and> item_type e = ''addition'' \<and> parent_pdv e = Some (pdv product)"
    by (simp add: build_menu_index_additions)
  with a show ?thesis
    by (auto simp: addition_from_menu_def mk_addition_def mk_cart_item_def Let_def)
qed

lemma match_items_loop_additions:
  assumes "match_items_loop sc ud (fst (build_menu_index menu)) (snd (build_menu_index menu))
             xs its ps = Inr (its', ps')"
    and "\<forall>line \<in> set its. \<forall>a \<in> set (adicionais line).
           a_quantidade a = 1 \<and> addition_from_menu menu line a"
  shows "\<forall>line \<in> set its'. \<forall>a \<in> set (adicionais line).
           a_quantidade a = 1 \<and> addition_from_menu menu line a"
  using assms
proof (induction xs arbitrary: its ps)
  case Nil
  then show ?case by simp
next
  case (Cons item xs)
  let ?products = "fst (build_menu_index menu)"
  let ?abp = "snd (build_menu_index menu)"
  show ?case
  proof (cases "is_additional_only item")
    case True
    with Cons.prems(1) have "match_items_loop sc ud ?products ?abp xs its
        (ps @ [projr (pendency_for_additional_only sc ud item ?products)]) = Inr (its', ps')"
      by (simp add: pendency_for_additional_only_Inr)
    from Cons.IH[OF this Cons.prems(2)] show ?thesis .
  next
    case False
    show ?thesis
    proof (cases "match_product sc ud item ?products")
      case None
      with False Cons.prems(1) have "match_items_loop sc ud ?products ?abp xs its
          (ps @ [projr (pendency_for_missing_product sc ud item ?products)]) = Inr (its', ps')"
        by (simp add: pendency_for_missing_product_Inr)
      from Cons.IH[OF this Cons.prems(2)] show ?thesis .
    next
      case (Some product)
      have "\<forall>line \<in> set (its @ [mk_cart_item sc ud item product (?abp (Some (pdv product)))]).
              \<forall>a \<in> set (adicionais line). a_quantidade a = 1 \<and> addition_from_menu menu line a"
        using Cons.prems(2) mk_cart_item_additions by auto
      from Cons.IH[OF match_items_loop_matched[OF False Some Cons.prems(1)] this]
      show ?thesis .
    qed
  qed
qed

text \<open>
  Claim C9. Every addition attached to a cart line of a returned result has quantity 1;
  its code, its name (cleaned by \<^verbatim>\<open>_clean_addition_name\<close>) and its unit price are those of
  an addition row of the menu whose parent is the line's product.
\<close>

theorem addition_quantity_one:
  assumes "match_items sc ud parsed menu raw_txt = Inr r"
    and "line \<in> set (items r)" and "a \<in> set (adicionais line)"
  shows "a_quantidade a = 1 \<and> addition_from_menu menu line a"
proof -
  from assms(1) obtain its ps where
    "match_items_loop sc ud (fst (build_menu_index menu)) (snd (build_menu_index menu))
       parsed [] [] = Inr (its, ps)" and "items r = its"
    by (auto simp: match_items_Inr)
  with match_items_loop_additions[of sc ud menu parsed "[]" "[]" its ps] assms(2,3)
  show ?thesis by auto
qed

subsection \<open>The matcher on the sample menu\<close>

lemma sample_run:
  "match_items fuzz_ratio sample_unidecode [sample_item] sample_menu ''1 x salada com bacon e foo''
     = Inr sample_result"
  by code_simp

lemma empty_run: "match_items sc ud [] menu [] = Inr empty_result"
  by (simp add: match_items_def Let_def build_menu_index_def new_InterpretedOrder_def
        compute_confidence_count confidence_0 empty_result_def)

lemma three_pizzas_run:
  "match_items fuzz_ratio sample_unidecode [pizza_item, pizza_item, pizza_item] sample_menu []
     = Inr three_pizzas_result"
  by code_simp

text \<open>
  Witness for C1: the run on no item (no pendency, confidence 1) and the run on the
  sample line (one pendency, confidence \<^verbatim>\<open>0.8\<close>).
\<close>

theorem matcher_confidence_witness:
  "match_items fuzz_ratio sample_unidecode [] sample_menu [] = Inr empty_result
   \<and> match_items fuzz_ratio sample_unidecode [sample_item] sample_menu
         ''1 x salada com bacon e foo'' = Inr sample_result
   \<and> length (pendencies empty_result) \<le> length (pendencies sample_result)
   \<and> confidence empty_result = round64 (max (1 / 10) (1 - 2 / 10 * of_nat 0))
   \<and> confidence sample_result \<le> confidence empty_result"
proof -
  have le: "length (pendencies empty_result) \<le> length (pendencies sample_result)"
    by (simp add: empty_result_def)
  have n: "length (pendencies empty_result) = 0" by (simp add: empty_result_def)
  from matcher_confidence[OF empty_run[of fuzz_ratio sample_unidecode sample_menu]]
  have "confidence empty_result
          = (if length (pendencies empty_result) = 3 then round64 (4 / 10) - 1 / 2 ^ 53
             else if length (pendencies empty_result) = 4 then round64 (2 / 10) - 1 / 2 ^ 54
             else round64 (max (1 / 10)
                    (1 - 2 / 10 * of_nat (length (pendencies empty_result)))))"
    and "\<forall>sc' ud' parsed' menu' raw' r'.
           match_items sc' ud' parsed' menu' raw' = Inr r'
           \<and> length (pendencies empty_result) \<le> length (pendencies r')
           \<longrightarrow> confidence r' \<le> confidence empty_result"
    by blast+
  then have "confidence empty_result = round64 (max (1 / 10) (1 - 2 / 10 * of_nat 0))"
    and "confidence sample_result \<le> confidence empty_result"
    using sample_run le by (simp_all only: n) simp_all
  with sample_run empty_run le show ?thesis by simp
qed

text \<open>
  Counterexample to C1 as stated: three lines that match no product give three
  pendencies, and the confidence is the \<^verbatim>\<open>float\<close> \<^verbatim>\<open>0.3999999999999999\<close>. It is neither the
  exact \<open>max 0.1 (1 - 0.2 * 3) = 0.4\<close> nor the \<^verbatim>\<open>float\<close> \<^verbatim>\<open>0.4\<close>, and it is below both.
\<close>

theorem confidence_three_pendencies:
  "match_items fuzz_ratio sample_unidecode [pizza_item, pizza_item, pizza_item] sample_menu []
     = Inr three_pizzas_result
   \<and> length (pendencies three_pizzas_result) = 3
   \<and> confidence three_pizzas_result
       \<noteq> max (1 / 10) (1 - 2 / 10 * of_nat (length (pendencies three_pizzas_result)))
   \<and> confidence three_pizzas_result < 4 / 10
   \<and> confidence three_pizzas_result < round64 (4 / 10)"
proof -
  have "length (pendencies three_pizzas_result) = 3" by (simp add: three_pizzas_result_def)
  moreover have "confidence three_pizzas_result = 3602879701896396 / 2 ^ 53"
    by (simp add: three_pizzas_result_def)
  ultimately show ?thesis
    using three_pizzas_run by (simp add: round64_two_fifths)
qed

lemma sample_product:
  "match_product fuzz_ratio sample_unidecode sample_item (fst (build_menu_index sample_menu))
     = Some x_salada"
  by code_simp

lemma sample_additions: "snd (build_menu_index sample_menu) (Some (pdv x_salada)) = [bacon]"
  by code_simp

lemma sample_bacon: "match_addition fuzz_ratio sample_unidecode ''bacon'' [bacon] = Some bacon"
  by code_simp

lemma sample_foo: "match_addition fuzz_ratio sample_unidecode ''foo'' [bacon] = None"
  by code_simp

lemma sample_menu_prices: "\<forall>e \<in> set sample_menu. 0 \<le> to_decimal (price e)"
  by (simp add: sample_menu_def x_salada_def bacon_def to_decimal_def)

lemma sample_item_within_schema: "within_cart_schema sample_item"
  by code_simp

text \<open>
  Witness for the amended C2: the sample menu has no negative price and the sample line
  \<^verbatim>\<open>1 x salada com bacon e foo\<close> is within the bounds of the schema; the call returns a
  result, the line keeps its cart line with the addition \<^verbatim>\<open>Bacon\<close>, and \<^verbatim>\<open>foo\<close> becomes one
  pendency.
\<close>

theorem matched_line_kept_witness:
  "list_all (\<lambda>e. 0 \<le> to_decimal (price e)) sample_menu
   \<and> within_cart_schema sample_item
   \<and> \<not> is_additional_only sample_item
   \<and> match_product fuzz_ratio sample_unidecode sample_item (fst (build_menu_index sample_menu))
        = Some x_salada
   \<and> (\<exists>r r1 its2 ps2.
       match_items fuzz_ratio sample_unidecode [sample_item] sample_menu
         ''1 x salada com bacon e foo'' = Inr r
       \<and> match_items fuzz_ratio sample_unidecode [] sample_menu ''1 x salada com bacon e foo'' = Inr r1
       \<and> items r
           = items r1 @ mk_cart_item fuzz_ratio sample_unidecode sample_item x_salada [bacon] # its2
       \<and> adicionais (mk_cart_item fuzz_ratio sample_unidecode sample_item x_salada [bacon])
           = [mk_addition bacon]
       \<and> pendencies r
           = pendencies r1
             @ [mk_addition_pendency fuzz_ratio sample_unidecode [bacon] x_salada ''foo''] @ ps2)"
proof -
  have na: "\<not> is_additional_only sample_item" by (simp add: sample_item_def)
  have lines: "\<forall>l \<in> set ([] @ sample_item # []).
      \<not> is_additional_only l
      \<and> match_product fuzz_ratio sample_unidecode l (fst (build_menu_index sample_menu)) \<noteq> None
      \<longrightarrow> within_cart_schema l"
    using sample_item_within_schema by simp
  have adds_item: "additions sample_item = [''bacon'', ''foo'']" by (simp add: sample_item_def)
  from matched_line_kept[OF sample_menu_prices lines na sample_product,
      of "''1 x salada com bacon e foo''"]
    sample_menu_prices sample_item_within_schema na sample_product
  show ?thesis
    unfolding sample_additions by (simp add: adds_item sample_bacon sample_foo list_all_iff)
qed

text \<open>Witness for C9: the addition \<^verbatim>\<open>Bacon\<close> of the sample run.\<close>

theorem addition_quantity_one_witness:
  "match_items fuzz_ratio sample_unidecode [sample_item] sample_menu
      ''1 x salada com bacon e foo'' = Inr sample_result
   \<and> hd (items sample_result) \<in> set (items sample_result)
   \<and> mk_addition bacon \<in> set (adicionais (hd (items sample_result)))
   \<and> a_quantidade (mk_addition bacon) = 1
   \<and> addition_from_menu sample_menu (hd (items sample_result)) (mk_addition bacon)"
proof -
  have l: "hd (items sample_result) \<in> set (items sample_result)"
    by (simp add: sample_result_def)
  have a: "mk_addition bacon \<in> set (adicionais (hd (items sample_result)))"
    by code_simp
  from addition_quantity_one[OF sample_run l a] sample_run l a show ?thesis by simp
qed

text \<open>
  Counterexample to C2 as stated: the line \<^verbatim>\<open>51 x salada com bacon e foo\<close> has its base
  product matched and the addition \<^verbatim>\<open>foo\<close> unmatched, and \<^verbatim>\<open>match_items\<close> emits no
  cart line for it: \<^verbatim>\<open>CartItem(quantidade=51)\<close> fails \<^verbatim>\<open>le=50\<close> and the call ends with the
  validation error.
\<close>

theorem matched_line_counterexample:
  "\<not> is_additional_only oversized_item
   \<and> match_product fuzz_ratio sample_unidecode oversized_item (fst (build_menu_index sample_menu))
        = Some x_salada
   \<and> match_addition fuzz_ratio sample_unidecode ''foo''
        (snd (build_menu_index sample_menu) (Some (pdv x_salada))) = None
   \<and> match_items fuzz_ratio sample_unidecode [oversized_item] sample_menu
        ''51 x salada com bacon e foo'' = Inl ValidationError"
  by code_simp

text \<open>
  Claim C3 at the input \<^verbatim>\<open>find_best_match("ab", ["ac"], 0.6)\<close>: the only candidate scores
  50, below the threshold, and the function returns \<open>(None, 0.5)\<close>, not \<open>(None, 0.0)\<close>.
\<close>

theorem find_best_match_below_threshold:
  "find_best_match fuzz_ratio sample_unidecode ''ab'' [''ac''] (round64 (6 / 10)) = (None, 1 / 2)"
  by code_simp

subsection \<open>The segmenter\<close>

lemma cut_context_example: "cut_context ''2 x salada para a rua A'' = ''2 x salada''"
  by code_simp

text \<open>
  Claim C10. \<^verbatim>\<open>_cut_context\<close> returns a text that contains a newline as it is, so the
  cutoff at the first address or payment marker is applied to single-line texts only; for
  a text with a newline the items are the segments of the whole text, and a line is left
  out only by \<^verbatim>\<open>_split_segments\<close> (empty after \<^verbatim>\<open>_strip_metadata\<close>, or a context line).
\<close>

theorem cut_context_keeps_multiline:
  "CHR 0x0A \<in> set text \<Longrightarrow>
     cut_context text = text
     \<and> parse_order_text ud text = map (parse_segment ud) (split_segments text)"
  by (auto simp: cut_context_def parse_order_text_def)

text \<open>Witness for C10: a message of two lines whose first line holds the marker
  \<^verbatim>\<open>para a\<close>.\<close>

theorem cut_context_keeps_multiline_witness:
  "CHR 0x0A \<in> set two_lines \<and> cut_context two_lines = two_lines
   \<and> parse_order_text sample_unidecode two_lines
       = map (parse_segment sample_unidecode) (split_segments two_lines)"
proof -
  have "CHR 0x0A \<in> set two_lines" by (simp add: two_lines_def)
  from cut_context_keeps_multiline[OF this] this show ?thesis by simp
qed

text \<open>
  Claim C5 at the input \<^verbatim>\<open>"0 coca"\<close>: the segment starts with the digit run \<^verbatim>\<open>0\<close>, its
  quantity is \<^verbatim>\<open>int("0")\<close>, and the parser returns an item of quantity 0.
\<close>

theorem zero_quantity_parsed: "parse_order_text sample_unidecode ''0 coca'' =
   [\<lparr>raw = ''0 coca'', quantity = 0, name = ''coca'', additions = [], removals = [],
     item_notes = [], is_additional_only = False, size_hint = None, match_text = ''coca''\<rparr>]"
  by code_simp

subsection \<open>Context lines\<close>

text \<open>
  What the engine computes on the building blocks of \<^verbatim>\<open>_CONTEXT_RE\<close>: a literal word, an
  alternation, a run of white space and a sequence each reach exactly the states given by
  a language of prefixes (\<open>spans\<close>); a search succeeds if and only if the pattern matches
  at some position of the text.
\<close>

lemma lit_Nil: "lit [] = Empty" by (simp add: lit_def)

lemma lit_Cons: "lit (c # w) = Seq (Lit c) (lit w)" by (simp add: lit_def)

lemma ms_lit:
  "ms ic (lit w) (p, pv, xs, cs) =
     (if lit_match ic w xs
      then [(p + length w, last_opt pv (take (length w) xs), drop (length w) xs, cs)] else [])"
proof (induction w arbitrary: p pv xs)
  case Nil
  then show ?case by (simp add: lit_match_def last_opt_def lit_Nil)
next
  case (Cons c w)
  show ?case
  proof (cases xs)
    case Nil
    then show ?thesis by (simp add: lit_match_def lit_Cons)
  next
    case (Cons x xs')
    then show ?thesis
      using Cons.IH[of "Suc p" "Some x" xs']
      by (auto simp: lit_match_def last_opt_def lit_Cons)
  qed
qed

lemma set_ms_alts: "set (ms ic (alts rs) s) = (\<Union>r \<in> set rs. set (ms ic r s))"
proof (induction rs rule: alts.induct)
  case 1
  show ?case by (cases s rule: prod_cases4) (case_tac c; simp)
qed auto

lemma search_from_iff:
  "search_from ic r p pv xs \<noteq> None \<longleftrightarrow>
     (\<exists>a b. xs = a @ b \<and> match_at ic r (p + length a) (last_opt pv a) b \<noteq> None)"
proof (induction xs arbitrary: p pv)
  case Nil
  then show ?case by (simp add: last_opt_def)
next
  case (Cons x xs)
  show ?case
  proof
    assume "search_from ic r p pv (x # xs) \<noteq> None"
    then consider "match_at ic r p pv (x # xs) \<noteq> None"
      | "search_from ic r (Suc p) (Some x) xs \<noteq> None"
      by (auto split: option.splits)
    then show "\<exists>a b. x # xs = a @ b \<and> match_at ic r (p + length a) (last_opt pv a) b \<noteq> None"
    proof cases
      case 1
      then have "x # xs = [] @ (x # xs) \<and> match_at ic r (p + length ([]::string)) (last_opt pv []) (x # xs) \<noteq> None"
        by (simp add: last_opt_def)
      then show ?thesis by blast
    next
      case 2
      with Cons.IH obtain a b where
        "xs = a @ b" "match_at ic r (Suc p + length a) (last_opt (Some x) a) b \<noteq> None"
        by blast
      then have "x # xs = (x # a) @ b \<and> match_at ic r (p + length (x # a)) (last_opt pv (x # a)) b \<noteq> None"
        by (cases "a = []") (simp_all add: last_opt_def)
      then show ?thesis by blast
    qed
  next
    assume "\<exists>a b. x # xs = a @ b \<and> match_at ic r (p + length a) (last_opt pv a) b \<noteq> None"
    then obtain a b where ab: "x # xs = a @ b"
      and m: "match_at ic r (p + length a) (last_opt pv a) b \<noteq> None" by blast
    show "search_from ic r p pv (x # xs) \<noteq> None"
    proof (cases a)
      case Nil
      with ab m show ?thesis by (auto simp: last_opt_def split: option.splits)
    next
      case (Cons y a')
      with ab have "xs = a' @ b" "y = x" by simp_all
      moreover from m Cons \<open>y = x\<close> have "match_at ic r (Suc p + length a') (last_opt (Some x) a') b \<noteq> None"
        by (cases "a' = []") (simp_all add: last_opt_def)
      ultimately have "search_from ic r (Suc p) (Some x) xs \<noteq> None"
        using Cons.IH by blast
      then show ?thesis by (auto split: option.splits)
    qed
  qed
qed

lemma last_opt_Nil [simp]: "last_opt pv [] = pv" by (simp add: last_opt_def)

lemma last_opt_append: "last_opt (last_opt pv a) b = last_opt pv (a @ b)"
  by (simp add: last_opt_def)

lemma ms_Cls_Spc:
  "ms ic (Cls Spc) (p, pv, xs, cs) =
     (case xs of [] \<Rightarrow> [] | x # xs' \<Rightarrow> if is_space x then [(Suc p, Some x, xs', cs)] else [])"
  by (cases xs) simp_all

lemma ms_Star:
  "ms ic (Star a) s =
     concat (map (\<lambda>s'. if shorter s' s then ms ic (Star a) s' else []) (ms ic a s)) @ [s]"
  by simp

lemma ms_sp0_Nil: "ms ic sp0 (p, pv, [], cs) = [(p, pv, [], cs)]"
  unfolding sp0_def by (subst ms_Star) simp

lemma ms_sp0_Cons:
  "ms ic sp0 (p, pv, x # xs, cs) =
     (if is_space x then ms ic sp0 (Suc p, Some x, xs, cs) else []) @ [(p, pv, x # xs, cs)]"
  unfolding sp0_def by (subst ms_Star) (simp add: shorter_def del: ms.simps(8))

lemma set_ms_sp0:
  "set (ms ic sp0 (p, pv, xs, cs)) =
     {(p + length m, last_opt pv m, b, cs) | m b. xs = m @ b \<and> list_all is_space m}"
proof (induction xs arbitrary: p pv)
  case Nil
  show ?case by (auto simp: ms_sp0_Nil)
next
  case (Cons x xs)
  show ?case
  proof (cases "is_space x")
    case False
    have "set (ms ic sp0 (p, pv, x # xs, cs)) = {(p, pv, x # xs, cs)}"
      using False by (simp add: ms_sp0_Cons)
    also have "\<dots> = {(p + length m, last_opt pv m, b, cs) | m b. x # xs = m @ b \<and> list_all is_space m}"
      using False by (auto simp: Cons_eq_append_conv)
    finally show ?thesis .
  next
    case True
    have "set (ms ic sp0 (p, pv, x # xs, cs))
            = set (ms ic sp0 (Suc p, Some x, xs, cs)) \<union> {(p, pv, x # xs, cs)}"
      using True by (simp add: ms_sp0_Cons)
    also have "\<dots> = {(Suc p + length m, last_opt (Some x) m, b, cs) | m b. xs = m @ b \<and> list_all is_space m}
                    \<union> {(p, pv, x # xs, cs)}"
      by (simp only: Cons.IH)
    also have "\<dots> = {(p + length m, last_opt pv m, b, cs) | m b. x # xs = m @ b \<and> list_all is_space m}"
    proof (intro set_eqI iffI)
      fix s assume "s \<in> {(Suc p + length m, last_opt (Some x) m, b, cs) | m b. xs = m @ b \<and> list_all is_space m}
                    \<union> {(p, pv, x # xs, cs)}"
      then consider m b where "s = (Suc p + length m, last_opt (Some x) m, b, cs)" "xs = m @ b" "list_all is_space m"
        | "s = (p, pv, x # xs, cs)" by blast
      then show "s \<in> {(p + length m, last_opt pv m, b, cs) | m b. x # xs = m @ b \<and> list_all is_space m}"
      proof cases
        case 1
        then have "s = (p + length (x # m), last_opt pv (x # m), b, cs) \<and> x # xs = (x # m) @ b
                     \<and> list_all is_space (x # m)"
          using True by (cases "m = []") (simp_all add: last_opt_def)
        then show ?thesis by blast
      next
        case 2
        then have "s = (p + length ([]::string), last_opt pv [], x # xs, cs) \<and> x # xs = [] @ (x # xs)
                     \<and> list_all is_space []" by simp
        then show ?thesis by blast
      qed
    next
      fix s assume "s \<in> {(p + length m, last_opt pv m, b, cs) | m b. x # xs = m @ b \<and> list_all is_space m}"
      then obtain m b where s: "s = (p + length m, last_opt pv m, b, cs)" and e: "x # xs = m @ b"
        and sp: "list_all is_space m" by blast
      show "s \<in> {(Suc p + length m, last_opt (Some x) m, b, cs) | m b. xs = m @ b \<and> list_all is_space m}
                    \<union> {(p, pv, x # xs, cs)}"
      proof (cases m)
        case Nil
        with s e show ?thesis by simp
      next
        case (Cons y m')
        with e have "xs = m' @ b" "y = x" by simp_all
        moreover from s Cons have "s = (Suc p + length m', last_opt (Some x) m', b, cs)"
          using \<open>y = x\<close> by (cases "m' = []") (simp_all add: last_opt_def)
        moreover from sp Cons have "list_all is_space m'" by simp
        ultimately show ?thesis by blast
      qed
    qed
    finally show ?thesis .
  qed
qed

lemma spans_tuple:
  "spans L (p, pv, xs, cs) = {(p + length m, last_opt pv m, b, cs) | m b. xs = m @ b \<and> m \<in> L}"
  by (simp add: spans_def)

lemma set_ms_sp0_spans: "set (ms ic sp0 s) = spans {m. list_all is_space m} s"
  by (cases s rule: prod_cases4) (simp add: set_ms_sp0 spans_tuple)

lemma set_ms_lit: "set (ms ic (lit w) s) = spans {m. list_all2 (eqc ic) w m} s"
proof (cases s rule: prod_cases4)
  case (fields p pv xs cs)
  show ?thesis
  proof (cases "lit_match ic w xs")
    case True
    then have "list_all2 (eqc ic) w (take (length w) xs)" "length w \<le> length xs"
      by (simp_all add: lit_match_def)
    have "{(p + length m, last_opt pv m, b, cs) | m b. xs = m @ b \<and> list_all2 (eqc ic) w m}
            = {(p + length w, last_opt pv (take (length w) xs), drop (length w) xs, cs)}"
    proof (intro set_eqI iffI)
      fix t assume "t \<in> {(p + length m, last_opt pv m, b, cs) | m b. xs = m @ b \<and> list_all2 (eqc ic) w m}"
      then obtain m b where t: "t = (p + length m, last_opt pv m, b, cs)" and "xs = m @ b"
        and "list_all2 (eqc ic) w m" by blast
      then have "length m = length w" "take (length w) xs = m" "drop (length w) xs = b"
        by (auto dest: list_all2_lengthD)
      with t show "t \<in> {(p + length w, last_opt pv (take (length w) xs), drop (length w) xs, cs)}"
        by simp
    next
      fix t assume "t \<in> {(p + length w, last_opt pv (take (length w) xs), drop (length w) xs, cs)}"
      then have "t = (p + length (take (length w) xs), last_opt pv (take (length w) xs), drop (length w) xs, cs)
                   \<and> xs = take (length w) xs @ drop (length w) xs
                   \<and> list_all2 (eqc ic) w (take (length w) xs)"
        using True by (simp add: lit_match_def min_def)
      then show "t \<in> {(p + length m, last_opt pv m, b, cs) | m b. xs = m @ b \<and> list_all2 (eqc ic) w m}"
        by blast
    qed
    with True fields show ?thesis by (simp add: ms_lit spans_tuple)
  next
    case False
    have "{(p + length m, last_opt pv m, b, cs) | m b. xs = m @ b \<and> list_all2 (eqc ic) w m} = {}"
    proof -
      have "\<not> (xs = m @ b \<and> list_all2 (eqc ic) w m)" for m b
      proof
        assume "xs = m @ b \<and> list_all2 (eqc ic) w m"
        then have "length m = length w" "take (length w) xs = m" "length w \<le> length xs"
          by (auto dest: list_all2_lengthD)
        with \<open>xs = m @ b \<and> list_all2 (eqc ic) w m\<close> have "lit_match ic w xs"
          by (simp add: lit_match_def)
        with False show False by simp
      qed
      then show ?thesis by blast
    qed
    with False fields show ?thesis by (simp add: ms_lit spans_tuple)
  qed
qed

lemma set_ms_Seq:
  assumes "\<And>s. set (ms ic a s) = spans A s" and "\<And>s. set (ms ic b s) = spans B s"
  shows "set (ms ic (Seq a b) s) = spans {m1 @ m2 | m1 m2. m1 \<in> A \<and> m2 \<in> B} s"
proof (cases s rule: prod_cases4)
  case (fields p pv xs cs)
  have "set (ms ic (Seq a b) s) = (\<Union>s' \<in> spans A s. spans B s')"
    by (simp add: assms)
  also have "\<dots> = spans {m1 @ m2 | m1 m2. m1 \<in> A \<and> m2 \<in> B} s"
  proof (intro set_eqI iffI)
    fix t assume "t \<in> (\<Union>s' \<in> spans A s. spans B s')"
    then obtain s' where s': "s' \<in> spans A s" and t': "t \<in> spans B s'" by blast
    from s' obtain m1 b1 where "xs = m1 @ b1" "m1 \<in> A"
      and s'_eq: "s' = (p + length m1, last_opt pv m1, b1, cs)"
      unfolding fields spans_tuple by blast
    moreover from t' obtain m2 b2 where "b1 = m2 @ b2" "m2 \<in> B"
      and "t = (p + length m1 + length m2, last_opt (last_opt pv m1) m2, b2, cs)"
      unfolding s'_eq spans_tuple by blast
    ultimately have "xs = m1 @ b1" "m1 \<in> A" "b1 = m2 @ b2" "m2 \<in> B"
      and "t = (p + length m1 + length m2, last_opt (last_opt pv m1) m2, b2, cs)"
      by simp_all
    then have "t = (p + length (m1 @ m2), last_opt pv (m1 @ m2), b2, cs) \<and> xs = (m1 @ m2) @ b2
                 \<and> m1 \<in> A \<and> m2 \<in> B"
      by (simp add: last_opt_append)
    then show "t \<in> spans {m1 @ m2 | m1 m2. m1 \<in> A \<and> m2 \<in> B} s"
      unfolding fields spans_tuple by blast
  next
    fix t assume "t \<in> spans {m1 @ m2 | m1 m2. m1 \<in> A \<and> m2 \<in> B} s"
    then obtain m1 m2 b where x: "xs = (m1 @ m2) @ b" and a: "m1 \<in> A" and b: "m2 \<in> B"
      and t: "t = (p + length (m1 @ m2), last_opt pv (m1 @ m2), b, cs)"
      unfolding fields spans_tuple by blast
    have s1: "(p + length m1, last_opt pv m1, m2 @ b, cs) \<in> spans A s"
      unfolding fields spans_tuple using x a by auto
    have "t \<in> spans B (p + length m1, last_opt pv m1, m2 @ b, cs)"
      unfolding spans_tuple using t b by (auto simp: last_opt_append)
    with s1 show "t \<in> (\<Union>s' \<in> spans A s. spans B s')" by blast
  qed
  finally show ?thesis .
qed

lemma set_ms_Alt:
  assumes "\<And>s. set (ms ic a s) = spans A s" and "\<And>s. set (ms ic b s) = spans B s"
  shows "set (ms ic (Alt a b) s) = spans (A \<union> B) s"
  by (cases s rule: prod_cases4) (auto simp: assms spans_tuple)

lemma set_ms_Empty: "set (ms ic Empty s) = spans {[]} s"
  by (cases s rule: prod_cases4) (auto simp: spans_tuple)

lemma spans_Un: "spans (A \<union> B) s = spans A s \<union> spans B s"
  by (auto simp: spans_def)

lemma spans_UN: "spans (\<Union>x \<in> X. A x) s = (\<Union>x \<in> X. spans (A x) s)"
  by (auto simp: spans_def)

lemma set_ms_Cls_Spc: "set (ms ic (Cls Spc) s) = spans {[c] | c. is_space c} s"
proof (cases s rule: prod_cases4)
  case (fields p pv xs cs)
  show ?thesis
  proof (cases xs)
    case Nil
    with fields show ?thesis by (auto simp: spans_tuple)
  next
    case (Cons x xs')
    with fields show ?thesis
      by (auto simp: spans_tuple last_opt_def Cons_eq_append_conv)
  qed
qed

lemma nonempty_spaces:
  "{m1 @ m2 | m1 m2. m1 \<in> {[c] | c. is_space c} \<and> m2 \<in> {m. list_all is_space m}}
     = {m. m \<noteq> [] \<and> list_all is_space m}"
proof (intro set_eqI iffI)
  fix m assume "m \<in> {m. m \<noteq> [] \<and> list_all is_space m}"
  then obtain c m' where "m = [c] @ m'" "is_space c" "list_all is_space m'"
    by (cases m) auto
  then show "m \<in> {m1 @ m2 | m1 m2. m1 \<in> {[c] | c. is_space c} \<and> m2 \<in> {m. list_all is_space m}}"
    by blast
qed auto

lemma set_ms_sp1: "set (ms ic sp1 s) = spans {m. m \<noteq> [] \<and> list_all is_space m} s"
proof -
  have "sp1 = Seq (Cls Spc) sp0" by (simp add: sp1_def sp0_def plus_def)
  then show ?thesis
    using set_ms_Seq[of ic "Cls Spc" "{[c] | c. is_space c}" sp0 "{m. list_all is_space m}" s]
    by (simp only: set_ms_Cls_Spc set_ms_sp0_spans nonempty_spaces)
qed

lemma seqs_Nil: "seqs [] = Empty" by (simp add: seqs_def)

lemma seqs_Cons: "seqs (r # rs) = Seq r (seqs rs)" by (simp add: seqs_def)

lemma set_ms_tudo_bem:
  "set (ms True (seqs [lit ''tudo'', sp1, lit ''bem'']) s) =
     spans {t @ ws @ b | t ws b. spells ''tudo'' t \<and> ws \<noteq> [] \<and> list_all is_space ws
              \<and> spells ''bem'' b} s"
proof -
  have bem: "set (ms True (Seq (lit ''bem'') Empty) s) = spans {b. spells ''bem'' b} s" for s
    using set_ms_Seq[of True "lit ''bem''" "{b. spells ''bem'' b}" Empty "{[]}" s]
    by (simp only: set_ms_lit set_ms_Empty spells_def) simp
  have sp: "set (ms True (Seq sp1 (Seq (lit ''bem'') Empty)) s)
              = spans {ws @ b | ws b. ws \<in> {m. m \<noteq> [] \<and> list_all is_space m} \<and> b \<in> {b. spells ''bem'' b}} s" for s
    by (rule set_ms_Seq) (simp_all only: set_ms_sp1 bem)
  have "set (ms True (Seq (lit ''tudo'') (Seq sp1 (Seq (lit ''bem'') Empty))) s)
          = spans {t @ r | t r. t \<in> {t. spells ''tudo'' t}
                     \<and> r \<in> {ws @ b | ws b. ws \<in> {m. m \<noteq> [] \<and> list_all is_space m} \<and> b \<in> {b. spells ''bem'' b}}} s"
    by (rule set_ms_Seq) (simp_all only: set_ms_lit sp spells_def)
  moreover have "{t @ r | t r. t \<in> {t. spells ''tudo'' t}
                     \<and> r \<in> {ws @ b | ws b. ws \<in> {m. m \<noteq> [] \<and> list_all is_space m} \<and> b \<in> {b. spells ''bem'' b}}}
        = {t @ ws @ b | t ws b. spells ''tudo'' t \<and> ws \<noteq> [] \<and> list_all is_space ws \<and> spells ''bem'' b}"
    by blast
  ultimately show ?thesis by (simp only: seqs_Cons seqs_Nil)
qed

lemma set_ms_keywords:
  "set (ms True (alts (map lit CONTEXT_KEYWORDS
                       @ [seqs [lit ''tudo'', sp1, lit ''bem''], lit ''quantos'', lit ''deu''])) s)
     = spans {m. keyword_text m} s"
proof -
  have "set (ms True (alts (map lit CONTEXT_KEYWORDS
                       @ [seqs [lit ''tudo'', sp1, lit ''bem''], lit ''quantos'', lit ''deu''])) s)
          = (\<Union>kw \<in> set CONTEXT_KEYWORDS. spans {m. spells kw m} s)
            \<union> spans {t @ ws @ b | t ws b. spells ''tudo'' t \<and> ws \<noteq> [] \<and> list_all is_space ws
                       \<and> spells ''bem'' b} s
            \<union> spans {m. spells ''quantos'' m} s \<union> spans {m. spells ''deu'' m} s"
    by (simp add: set_ms_alts set_ms_lit set_ms_tudo_bem spells_def Un_ac del: ms.simps)
  also have "\<dots> = spans ((\<Union>kw \<in> set CONTEXT_KEYWORDS. {m. spells kw m})
                        \<union> {t @ ws @ b | t ws b. spells ''tudo'' t \<and> ws \<noteq> [] \<and> list_all is_space ws
                             \<and> spells ''bem'' b}
                        \<union> {m. spells ''quantos'' m} \<union> {m. spells ''deu'' m}) s"
    by (simp only: spans_Un spans_UN)
  also have "(\<Union>kw \<in> set CONTEXT_KEYWORDS. {m. spells kw m})
                        \<union> {t @ ws @ b | t ws b. spells ''tudo'' t \<and> ws \<noteq> [] \<and> list_all is_space ws
                             \<and> spells ''bem'' b}
                        \<union> {m. spells ''quantos'' m} \<union> {m. spells ''deu'' m}
             = {m. keyword_text m}"
    by (auto simp: keyword_text_def)
  finally show ?thesis .
qed

lemma match_at_context:
  "match_at True CONTEXT_RE p pv xs \<noteq> None \<longleftrightarrow>
     word_boundary pv xs
     \<and> (\<exists>m b. xs = m @ b \<and> keyword_text m \<and> word_boundary (last_opt pv m) b)"
proof -
  let ?K = "alts (map lit CONTEXT_KEYWORDS
                  @ [seqs [lit ''tudo'', sp1, lit ''bem''], lit ''quantos'', lit ''deu''])"
  have re: "CONTEXT_RE = Seq WordB (Seq (Grp 1 ?K) (Seq WordB Empty))"
    by (simp only: CONTEXT_RE_def seqs_Cons seqs_Nil)
  have "match_at True CONTEXT_RE p pv xs \<noteq> None
          \<longleftrightarrow> ms True CONTEXT_RE (p, pv, xs, []) \<noteq> []"
    by (simp add: match_at_def split: list.splits)
  also have "\<dots> \<longleftrightarrow> word_boundary pv xs
                    \<and> (\<exists>s' \<in> set (ms True ?K (p, pv, xs, [])).
                          word_boundary (fst (snd s')) (fst (snd (snd s'))))"
    unfolding re by (auto simp del: ms.simps(7,8) simp: split_def) 
  also have "\<dots> \<longleftrightarrow> word_boundary pv xs
                    \<and> (\<exists>m b. xs = m @ b \<and> keyword_text m \<and> word_boundary (last_opt pv m) b)"
    by (simp only: set_ms_keywords spans_tuple) auto
  finally show ?thesis .
qed

lemma address_line_is_context: "is_context_line ''2 x salada para a rua A''"
  by code_simp

lemma address_line_no_greeting: "\<not> matches_greeting ''2 x salada para a rua A''"
  unfolding matches_greeting_def by code_simp

text \<open>
  Claim C4, amended. \<^verbatim>\<open>_is_context_line\<close> accepts a line if and only if the line contains
  one of the keywords of \<^verbatim>\<open>_CONTEXT_RE\<close> as a whole word, or the whole line is a greeting.
  Nothing else is tested: a quantity marker in the line plays no part.
\<close>

theorem context_line_iff:
  "is_context_line text \<longleftrightarrow> contains_keyword text \<or> matches_greeting text"
proof -
  have "re_search True CONTEXT_RE text \<noteq> None \<longleftrightarrow> contains_keyword text"
  proof -
    have "re_search True CONTEXT_RE text \<noteq> None
            \<longleftrightarrow> (\<exists>a b'. text = a @ b' \<and> word_boundary (last_opt None a) b'
                   \<and> (\<exists>m b. b' = m @ b \<and> keyword_text m
                          \<and> word_boundary (last_opt (last_opt None a) m) b))"
      unfolding re_search_def search_from_iff match_at_context by simp
    also have "\<dots> \<longleftrightarrow> contains_keyword text"
      unfolding contains_keyword_def whole_word_def last_opt_append by blast
    finally show ?thesis .
  qed
  then show ?thesis
    by (auto simp: is_context_line_def matches_greeting_def)
qed

text \<open>Witness for C4: the line \<^verbatim>\<open>2 x salada para a rua A\<close> is accepted and is no greeting,
  so it contains a keyword as a whole word (\<^verbatim>\<open>rua\<close>).\<close>

theorem context_line_iff_witness:
  "contains_keyword ''2 x salada para a rua A'' \<and> \<not> matches_greeting ''2 x salada para a rua A''"
  using context_line_iff[of "''2 x salada para a rua A''"]
    address_line_is_context address_line_no_greeting
  by simp

text \<open>
  Claim C4 as stated fails on a line with a keyword and a quantity marker: in the message
  \<open>two_lines\<close> the first line \<^verbatim>\<open>2 x salada para a rua A\<close> starts with the quantity marker
  \<^verbatim>\<open>2 x\<close> (\<^verbatim>\<open>_ITEM_START_RE\<close> matches at its start, group 1 being \<^verbatim>\<open>2\<close>) and contains the
  keyword \<^verbatim>\<open>rua\<close>; \<^verbatim>\<open>_is_context_line\<close> accepts it and \<^verbatim>\<open>_split_segments\<close> drops it, so only
  the second line gives a segment.
\<close>

theorem context_line_with_quantity:
  "is_context_line ''2 x salada para a rua A''
   \<and> map (\<lambda>m. group ''2 x salada para a rua A'' m 1)
        (re_finditer True ITEM_START_RE ''2 x salada para a rua A'') = [''2'']
   \<and> split_segments two_lines = [''1 coca'']"
  by code_simp

subsection \<open>The normalizer\<close>

lemma remdups_snoc: "remdups (ys @ [x]) = filter (\<lambda>y. y \<noteq> x) (remdups ys) @ [x]"
  by (induction ys) auto

lemma first_seen_Cons:
  "rev (remdups (rev (x # xs))) = x # filter (\<lambda>y. y \<noteq> x) (rev (remdups (rev xs)))"
  by (simp add: remdups_snoc rev_filter)

lemma dedupe_loop_eq:
  "dedupe_loop xs (set result) result
     = result @ filter (\<lambda>x. x \<notin> set result) (rev (remdups (rev xs)))"
proof (induction xs arbitrary: result)
  case Nil
  then show ?case by simp
next
  case (Cons x xs)
  show ?case
  proof (cases "x \<in> set result")
    case True
    then have "filter (\<lambda>y. y \<notin> set result) (filter (\<lambda>y. y \<noteq> x) (rev (remdups (rev xs))))
                 = filter (\<lambda>y. y \<notin> set result) (rev (remdups (rev xs)))"
      by (auto intro: filter_cong)
    with True Cons.IH[of result] show ?thesis
      by (simp only: first_seen_Cons dedupe_loop.simps) simp
  next
    case False
    have "dedupe_loop xs (set (result @ [x])) (result @ [x])
            = (result @ [x]) @ filter (\<lambda>y. y \<notin> set (result @ [x])) (rev (remdups (rev xs)))"
      by (rule Cons.IH)
    moreover have "filter (\<lambda>y. y \<notin> set (result @ [x])) (rev (remdups (rev xs)))
                     = filter (\<lambda>y. y \<notin> set result) (filter (\<lambda>y. y \<noteq> x) (rev (remdups (rev xs))))"
      by (auto intro: filter_cong)
    ultimately show ?thesis using False
      by (simp only: first_seen_Cons dedupe_loop.simps) simp
  qed
qed

lemma dedupe_first_seen: "dedupe xs = rev (remdups (rev xs))"
  using dedupe_loop_eq[of xs "[]"] by (simp add: dedupe_def)

lemma dedupe_distinct: "distinct (dedupe xs)"
  by (simp add: dedupe_first_seen)

lemma dedupe_set: "set (dedupe xs) = set xs"
  by (simp add: dedupe_first_seen)

lemma resolve_item_removals:
  "removals (resolve_item ud item)
     = dedupe (map (norm_removal ud)
                 (filter (\<lambda>r. r \<noteq> [])
                    (removals item @ (if mentions_careca ud item then [''salada geral''] else []))))"
proof -
  have eq: "norm_removal ud = (\<lambda>r. re_sub True EVILHA_RE [RText ''ervilha''] (normalize_text ud r))"
    by (rule ext) (simp add: norm_removal_def)
  show ?thesis
    by (simp add: resolve_item_def Let_def eq mentions_careca_def)
qed

lemma resolve_item_additions:
  "additions (resolve_item ud item)
     = (if py_in ''batata frita'' (rewritten_name ud item) then []
        else map (normalize_text ud) (filter (\<lambda>a. a \<noteq> []) (additions item)))"
  by (simp add: resolve_item_def rewritten_name_def Let_def)

lemma resolve_item_frame:
  "raw (resolve_item ud item) = raw item \<and> quantity (resolve_item ud item) = quantity item
   \<and> name (resolve_item ud item) = name item \<and> item_notes (resolve_item ud item) = item_notes item
   \<and> is_additional_only (resolve_item ud item) = is_additional_only item"
  by (simp add: resolve_item_def Let_def)

text \<open>
  Claim C7, as amended. The removals of a resolved line have no duplicates: they are the
  non-empty removals of the line (with \<^verbatim>\<open>salada geral\<close> appended when the name mentions
  \<^verbatim>\<open>careca\<close>), each normalized by \<^verbatim>\<open>normalize_text\<close> and the rewrite of \<^verbatim>\<open>evilha\<close>, de-duplicated
  in first-seen order. The additions are the non-empty additions of the line, each
  normalized by \<^verbatim>\<open>normalize_text\<close>, in order and not de-duplicated; they are replaced by the
  empty list exactly when the rewritten name of the line contains \<^verbatim>\<open>batata frita\<close> (the
  additions are then part of the match text).
\<close>

theorem removals_deduplicated:
  "distinct (removals (resolve_item ud item))
   \<and> removals (resolve_item ud item)
       = rev (remdups (rev (map (norm_removal ud)
               (filter (\<lambda>r. r \<noteq> [])
                  (removals item
                   @ (if mentions_careca ud item then [''salada geral''] else []))))))
   \<and> additions (resolve_item ud item)
       = (if py_in ''batata frita'' (rewritten_name ud item) then []
          else map (normalize_text ud) (filter (\<lambda>a. a \<noteq> []) (additions item)))"
  by (simp only: resolve_item_removals resolve_item_additions dedupe_first_seen) simp

text \<open>
  The two cases of the additions on the sample lines: \<^verbatim>\<open>1 batata frita com bacon\<close> loses
  its addition to the match text, \<^verbatim>\<open>1 x salada com bacon e bacon\<close> keeps its additions.
\<close>

lemma batata_additions_merged:
  "parse_order_text sample_unidecode ''1 batata frita com bacon'' = [batata_item]
   \<and> rewritten_name sample_unidecode batata_item = ''batata frita''
   \<and> additions (resolve_item sample_unidecode batata_item) = []
   \<and> match_text (resolve_item sample_unidecode batata_item) = ''batata frita bacon''"
  by code_simp

lemma salada_additions_kept:
  "rewritten_name sample_unidecode dup_item = ''x salada''
   \<and> \<not> py_in ''batata frita'' (rewritten_name sample_unidecode dup_item)"
  by code_simp

text \<open>
  Counterexample to C7 as stated: the line \<^verbatim>\<open>1 x salada com bacon e bacon\<close> is parsed with
  the additions \<^verbatim>\<open>bacon, bacon\<close>, and the resolved line keeps both.
\<close>

theorem additions_not_deduplicated:
  "parse_order_text sample_unidecode ''1 x salada com bacon e bacon'' = [dup_item]
   \<and> additions (resolve_item sample_unidecode dup_item) = [''bacon'', ''bacon'']
   \<and> \<not> distinct (additions (resolve_item sample_unidecode dup_item))"
  by code_simp

lemma resolve_loop_fst: "fst (resolve_loop ud refs acc st) = acc @ refs"
  by (induction refs arbitrary: acc st) (auto simp: resolve_item_at_def Let_def)

lemma resolve_loop_snd:
  "snd (resolve_loop ud refs acc st) r = ((resolve_item ud) ^^ count_list refs r) (st r)"
  by (induction refs arbitrary: acc st) (auto simp: resolve_item_at_def Let_def funpow_swap1)

lemma resolve_item_funpow_frame:
  "raw ((resolve_item ud ^^ n) item) = raw item \<and> quantity ((resolve_item ud ^^ n) item) = quantity item
   \<and> name ((resolve_item ud ^^ n) item) = name item
   \<and> item_notes ((resolve_item ud ^^ n) item) = item_notes item
   \<and> is_additional_only ((resolve_item ud ^^ n) item) = is_additional_only item"
  by (induction n) (auto simp: resolve_item_frame)

text \<open>
  Claim C6, as amended. \<^verbatim>\<open>resolve_parsed_items\<close> returns the references it was given, in
  order, and updates each object in place (once for each time its reference is in the
  list); an object that is not in the list is untouched, and the fields \<^verbatim>\<open>raw\<close>,
  \<^verbatim>\<open>quantity\<close>, \<^verbatim>\<open>name\<close>, \<^verbatim>\<open>notes\<close> and \<^verbatim>\<open>is_additional_only\<close> of every object keep their values.
  The fields \<^verbatim>\<open>additions\<close>, \<^verbatim>\<open>removals\<close>, \<^verbatim>\<open>size_hint\<close> and \<^verbatim>\<open>match_text\<close> are overwritten.
\<close>

theorem resolve_updates_in_place:
  "fst (resolve_parsed_items ud refs st) = refs
   \<and> (\<forall>r. snd (resolve_parsed_items ud refs st) r
            = ((resolve_item ud) ^^ count_list refs r) (st r))
   \<and> (\<forall>r. r \<notin> set refs \<longrightarrow> snd (resolve_parsed_items ud refs st) r = st r)
   \<and> (\<forall>r. raw (snd (resolve_parsed_items ud refs st) r) = raw (st r)
          \<and> quantity (snd (resolve_parsed_items ud refs st) r) = quantity (st r)
          \<and> name (snd (resolve_parsed_items ud refs st) r) = name (st r)
          \<and> item_notes (snd (resolve_parsed_items ud refs st) r) = item_notes (st r)
          \<and> is_additional_only (snd (resolve_parsed_items ud refs st) r)
              = is_additional_only (st r))"
  by (simp add: resolve_parsed_items_def resolve_loop_fst resolve_loop_snd
        resolve_item_funpow_frame)

lemma careca_resolved:
  "resolve_item sample_unidecode careca_item
     = careca_item\<lparr>removals := [''salada geral''], match_text := ''x galinha''\<rparr>"
  by code_simp

text \<open>
  Counterexample to C6 as stated: for the parsed line \<^verbatim>\<open>1 x galinha careca\<close>, the call
  returns the reference of the input object, and that object's \<^verbatim>\<open>removals\<close> and
  \<^verbatim>\<open>match_text\<close> have changed.
\<close>

theorem resolve_mutates_input:
  "parse_order_text sample_unidecode ''1 x galinha careca'' = [careca_item]
   \<and> fst (resolve_parsed_items sample_unidecode [0] (\<lambda>r. careca_item)) = [0]
   \<and> removals careca_item = []
   \<and> removals (snd (resolve_parsed_items sample_unidecode [0] (\<lambda>r. careca_item)) 0)
       = [''salada geral'']
   \<and> match_text careca_item = ''x galinha careca''
   \<and> match_text (snd (resolve_parsed_items sample_unidecode [0] (\<lambda>r. careca_item)) 0)
       = ''x galinha''"
proof -
  have "parse_order_text sample_unidecode ''1 x galinha careca'' = [careca_item]"
    by code_simp
  then show ?thesis
    by (simp add: resolve_parsed_items_def resolve_item_at_def careca_resolved)
      (simp add: careca_item_def)
qed

text \<open>Witness for the amended C6: the same store, at the reference in the list and at
  one outside it.\<close>

theorem resolve_updates_in_place_witness:
  "fst (resolve_parsed_items sample_unidecode [0] (\<lambda>r. careca_item)) = [0]
   \<and> (1::nat) \<notin> set [0::nat]
   \<and> snd (resolve_parsed_items sample_unidecode [0] (\<lambda>r. careca_item)) 1 = careca_item
   \<and> snd (resolve_parsed_items sample_unidecode [0] (\<lambda>r. careca_item)) 0
       = resolve_item sample_unidecode careca_item
   \<and> name (snd (resolve_parsed_items sample_unidecode [0] (\<lambda>r. careca_item)) 0)
       = ''x galinha careca''"
  using resolve_updates_in_place[of sample_unidecode "[0]" "\<lambda>r. careca_item"]
  by (simp add: resolve_item_frame) (simp add: careca_item_def)

subsection \<open>The pipeline\<close>

text \<open>
  Claim C8. For the empty text and any menu the pipeline returns the result with no
  line, no pendency and confidence 1.
\<close>

theorem empty_text_pipeline: "run_pipeline sc ud [] menu = Inr empty_result"
  by (simp add: run_pipeline_def parse_order_text_def new_objects_def resolve_parsed_items_def
        match_items_def Let_def build_menu_index_def new_InterpretedOrder_def
        compute_confidence_count confidence_0 empty_result_def)

text \<open>The segment \<^verbatim>\<open>0 x salada\<close> through the whole pipeline: the quantity 0 reaches
  \<^verbatim>\<open>CartItem\<close>, whose validation fails.\<close>

lemma zero_quantity_pipeline:
  "run_pipeline fuzz_ratio sample_unidecode ''0 x salada'' sample_menu = Inl ValidationError"
  by code_simp

end
